theory Spec2Isabelle
  imports Complex_Main
begin

section \<open>Data model (types.ts)\<close>

text \<open>
  The enums of \<^verbatim>\<open>types.ts\<close> are datatypes; the string value of each member is
  given by a separate function, because the code interpolates these values into messages.
\<close>

datatype Role = PRE | ADMIN | DATACR | BDM | ASM

datatype TicketStatus = IN_PROGRESS | COMPLETED | ESCALATED | CLOSED

fun statusText :: "TicketStatus \<Rightarrow> string" where
  "statusText IN_PROGRESS = ''In Progress''"
| "statusText COMPLETED = ''Completed''"
| "statusText ESCALATED = ''Escalated''"
| "statusText CLOSED = ''Closed''"

datatype Team = ONBOARDING | RETARGETING | RETENTION

fun teamText :: "Team \<Rightarrow> string" where
  "teamText ONBOARDING = ''Onboarding Team''"
| "teamText RETARGETING = ''Retargeting Team''"
| "teamText RETENTION = ''Retention Team''"

text \<open>
  Interfaces are records. Field names carry a prefix per interface, because the
  interfaces share names (\<^verbatim>\<open>id\<close>, \<^verbatim>\<open>message\<close>, \<^verbatim>\<open>timestamp\<close>).
  An optional property (\<^verbatim>\<open>team?\<close>) is an \<open>option\<close>.

  A timestamp is stored by the code as the ISO-8601 string of an instant
  (\<^verbatim>\<open>new Date().toISOString()\<close>) and read back with \<^verbatim>\<open>new Date(s).getTime()\<close>.
  The model keeps the instant itself: the number of milliseconds since the epoch, a
  natural number. Strings that denote no instant are outside the model.
\<close>

record User =
  u_id :: string
  u_name :: string
  u_email :: string
  u_role :: Role
  u_team :: "Team option"
  u_managerId :: "string option"

record AutomatedMessage =
  m_id :: string
  m_errorTypeId :: string
  m_message :: string

record Attachment =
  a_name :: string
  a_type :: string
  a_size :: nat

record Ticket =
  t_id :: string
  t_uid :: string
  t_preId :: string
  t_errorTypeId :: string
  t_description :: string
  t_comment :: "string option"
  t_status :: TicketStatus
  t_createdAt :: nat
  t_updatedAt :: nat
  t_rpName :: "string option"
  t_team :: string
  t_subject :: "string option"
  t_attachment :: "Attachment option"

record AuditLog =
  l_id :: string
  l_ticketId :: string
  l_userId :: string
  l_action :: string
  l_timestamp :: nat
  l_details :: string

record SystemNotification =
  n_id :: string
  n_ticketId :: string
  n_preId :: string
  n_uid :: string
  n_message :: string
  n_timestamp :: nat
  n_isRead :: bool

record AdminNotification =
  an_id :: string
  an_ticketId :: string
  an_message :: string
  an_timestamp :: nat
  an_isRead :: bool

text \<open>
  The argument of \<^verbatim>\<open>addTicket\<close>: a ticket without \<^verbatim>\<open>id\<close>, \<^verbatim>\<open>createdAt\<close>,
  \<^verbatim>\<open>updatedAt\<close>, \<^verbatim>\<open>preId\<close>, \<^verbatim>\<open>status\<close> and \<^verbatim>\<open>team\<close>.
\<close>

record TicketDraft =
  d_uid :: string
  d_errorTypeId :: string
  d_description :: string
  d_comment :: "string option"
  d_rpName :: "string option"
  d_subject :: "string option"
  d_attachment :: "Attachment option"

text \<open>
  The argument of \<^verbatim>\<open>updateTicket\<close>, \<^verbatim>\<open>Partial<Ticket> & { id: string }\<close>: every
  property but \<^verbatim>\<open>id\<close> may be left out (\<open>None\<close>). For the properties that are optional
  in \<^verbatim>\<open>Ticket\<close> itself a patch can also carry the value \<^verbatim>\<open>undefined\<close>, which the
  spread copies: \<open>Some None\<close>.
\<close>

record TicketPatch =
  p_id :: string
  p_uid :: "string option"
  p_preId :: "string option"
  p_errorTypeId :: "string option"
  p_description :: "string option"
  p_comment :: "string option option"
  p_status :: "TicketStatus option"
  p_createdAt :: "nat option"
  p_updatedAt :: "nat option"
  p_rpName :: "string option option"
  p_team :: "string option"
  p_subject :: "string option option"
  p_attachment :: "Attachment option option"

text \<open>The \<^verbatim>\<open>KPI\<close> interface of \<^verbatim>\<open>store.ts\<close>.\<close>

record KPI =
  k_activeTickets :: nat
  k_closedTickets :: nat
  k_avgTimeToSolve :: string

text \<open>
  The state: the session store (\<^verbatim>\<open>user\<close>, \<^verbatim>\<open>team\<close>), the module-level arrays of
  \<^verbatim>\<open>mockData.ts\<close> that the stores mutate, and what the ticket store and the admin store
  publish with \<^verbatim>\<open>set\<close>: the copies of those arrays and the \<^verbatim>\<open>kpis\<close>.
\<close>

record State =
  sessionUser :: "User option"
  sessionTeam :: "string option"
  mockMessages :: "AutomatedMessage list"
  mockTickets :: "Ticket list"
  mockNotifications :: "SystemNotification list"
  mockAdminNotifications :: "AdminNotification list"
  mockLogs :: "AuditLog list"
  tickets :: "Ticket list"
  notifications :: "SystemNotification list"
  adminNotifications :: "AdminNotification list"
  logs :: "AuditLog list"
  kpis :: KPI

text \<open>
  The two \<^verbatim>\<open>Error\<close>s that \<^verbatim>\<open>addTicket\<close> throws, named as the specification names
  them: \<open>SessionInvalid\<close> is "Ticket creation failed: Your session has expired. ..." and
  \<open>TeamUnresolved\<close> is "Ticket creation failed: Your team information is missing. ...".
\<close>

datatype Error = SessionInvalid | TeamUnresolved

section \<open>JavaScript library functions used by the stores\<close>

text \<open>\<^verbatim>\<open>Array.prototype.findIndex\<close>: the first index whose element satisfies the
  predicate; \<open>None\<close> stands for \<^verbatim>\<open>-1\<close>.\<close>

fun findIndex :: "('a \<Rightarrow> bool) \<Rightarrow> 'a list \<Rightarrow> nat option" where
  "findIndex P [] = None"
| "findIndex P (x # xs) =
     (if P x then Some 0 else map_option Suc (findIndex P xs))"

text \<open>A non-negative number in a template literal: its decimal digits.\<close>

definition digit :: "nat \<Rightarrow> char" where
  "digit d = char_of (48 + d)"

fun showNat :: "nat \<Rightarrow> string" where
  "showNat n = (if n < 10 then [digit n] else showNat (n div 10) @ [digit (n mod 10)])"

declare showNat.simps [simp del]

text \<open>\<^verbatim>\<open>s.split(c)\<close> for a one-character separator.\<close>

fun splitStr :: "char \<Rightarrow> string \<Rightarrow> string list" where
  "splitStr c [] = [[]]"
| "splitStr c (x # xs) =
     (if x = c then [] # splitStr c xs
      else (case splitStr c xs of [] \<Rightarrow> [[x]] | w # ws \<Rightarrow> (x # w) # ws))"

text \<open>\<^verbatim>\<open>`${id.split('-')[1]}`\<close>: the second piece, and the text
  \<^verbatim>\<open>undefined\<close> when the id holds no separator.\<close>

definition idNumber :: "string \<Rightarrow> string" where
  "idNumber i = (case splitStr CHR ''-'' i of _ # w # _ \<Rightarrow> w | _ \<Rightarrow> ''undefined'')"

text \<open>JavaScript truthiness of a \<^verbatim>\<open>string | null | undefined\<close> value.\<close>

definition truthy :: "string option \<Rightarrow> bool" where
  "truthy v = (case v of None \<Rightarrow> False | Some x \<Rightarrow> x \<noteq> [])"

section \<open>The admin store: addLog\<close>

text \<open>
  The clock is read once per \<^verbatim>\<open>Date.now()\<close> and once per \<^verbatim>\<open>new Date()\<close>. An
  operation takes the readings as a function \<open>clk\<close>: \<open>clk k\<close> is the value of the
  \<open>k\<close>-th reading the call makes, counted from 0 in program order.

  Each store action is \<^verbatim>\<open>async\<close>; the model runs it to completion in one step, as
  the single-writer model of the specification has it.
\<close>

record LogData =
  ld_ticketId :: string
  ld_userId :: string
  ld_action :: string
  ld_details :: string

definition addLog :: "(nat \<Rightarrow> nat) \<Rightarrow> LogData \<Rightarrow> State \<Rightarrow> State" where
  "addLog clk logData s =
     (let newLog = \<lparr> l_id = ''log-'' @ showNat (clk 0),
                      l_ticketId = ld_ticketId logData,
                      l_userId = ld_userId logData,
                      l_action = ld_action logData,
                      l_timestamp = clk 1,
                      l_details = ld_details logData \<rparr>;
          mockLogs' = newLog # mockLogs s
      in s \<lparr> mockLogs := mockLogs', logs := mockLogs' \<rparr>)"

section \<open>The ticket store: addTicket\<close>

text \<open>The template literals of the notifications and audit entries.\<close>

definition createdAdminMessage :: "string \<Rightarrow> string" where
  "createdAdminMessage uid = ''New ticket from UID '' @ uid @ '' was created.''"

definition resubmittedAdminMessage :: "string \<Rightarrow> string" where
  "resubmittedAdminMessage uid =
     ''Ticket for UID '' @ uid @ '' was re-submitted and has been escalated.''"

definition resubmittedMessage :: "string \<Rightarrow> string \<Rightarrow> string" where
  "resubmittedMessage uid ticketId =
     ''Your ticket submission for UID '' @ uid @ '' (Ticket #'' @ idNumber ticketId @
     '') was escalated.''"

definition autoClosedMessage :: "string \<Rightarrow> string \<Rightarrow> string \<Rightarrow> string" where
  "autoClosedMessage uid ticketId automated =
     ''Ticket #'' @ idNumber ticketId @ '' for UID '' @ uid @ '': '' @ automated"

definition createDetails :: "string \<Rightarrow> TicketStatus \<Rightarrow> string" where
  "createDetails uid status =
     ''Ticket created for UID '' @ uid @ '' with status '' @ statusText status @ ''.''"

text \<open>
  \<^verbatim>\<open>const team = user.role === Role.PRE ? session.team as Team : user.team\<close>: the
  session's team is any string or \<^verbatim>\<open>null\<close>, the profile's team a member of the enum
  or absent.
\<close>

definition resolvedTeam :: "User \<Rightarrow> State \<Rightarrow> string option" where
  "resolvedTeam user s =
     (if u_role user = PRE then sessionTeam s else map_option teamText (u_team user))"

text \<open>The \<^verbatim>\<open>let status\<close> of \<^verbatim>\<open>addTicket\<close>, lines 95 to 111. The prior ticket is
  looked up in the store's \<^verbatim>\<open>tickets\<close> (\<^verbatim>\<open>get().tickets\<close>).\<close>

definition initialStatus :: "TicketDraft \<Rightarrow> State \<Rightarrow> TicketStatus" where
  "initialStatus ticketData s =
     (case find (\<lambda>m. m_errorTypeId m = d_errorTypeId ticketData) (mockMessages s) of
        None \<Rightarrow> IN_PROGRESS
      | Some automatedMessageToSend \<Rightarrow>
          (case find (\<lambda>t. t_uid t = d_uid ticketData \<and>
                           t_errorTypeId t = d_errorTypeId ticketData) (tickets s) of
             Some existingTicket \<Rightarrow> ESCALATED
           | None \<Rightarrow> CLOSED))"

definition addTicket :: "(nat \<Rightarrow> nat) \<Rightarrow> TicketDraft \<Rightarrow> State \<Rightarrow> Error + State" where
  "addTicket clk ticketData s =
     (case sessionUser s of
        None \<Rightarrow> Inl SessionInvalid
      | Some user \<Rightarrow>
         (let preId = u_id user
          in case resolvedTeam user s of
               None \<Rightarrow> Inl TeamUnresolved
             | Some team \<Rightarrow>
                if preId = [] \<or> team = [] then Inl TeamUnresolved
                else
                 (let automatedMessageToSend =
                        find (\<lambda>m. m_errorTypeId m = d_errorTypeId ticketData) (mockMessages s);
                      status = initialStatus ticketData s;
                      newTicket = \<lparr> t_id = ''ticket-'' @ showNat (clk 0),
                                    t_uid = d_uid ticketData,
                                    t_preId = preId,
                                    t_errorTypeId = d_errorTypeId ticketData,
                                    t_description = d_description ticketData,
                                    t_comment = d_comment ticketData,
                                    t_status = status,
                                    t_createdAt = clk 1,
                                    t_updatedAt = clk 2,
                                    t_rpName = d_rpName ticketData,
                                    t_team = team,
                                    t_subject = d_subject ticketData,
                                    t_attachment = d_attachment ticketData \<rparr>;
                      mockTickets1 = newTicket # mockTickets s;
                      newAdminNotification =
                        \<lparr> an_id = ''admin-notif-'' @ showNat (clk 3),
                          an_ticketId = t_id newTicket,
                          an_message = createdAdminMessage (t_uid newTicket),
                          an_timestamp = clk 4,
                          an_isRead = False \<rparr>;
                      newAdminNotification1 =
                        (if status = ESCALATED
                         then newAdminNotification
                                \<lparr> an_message := resubmittedAdminMessage (t_uid newTicket) \<rparr>
                         else newAdminNotification);
                      mockNotifications1 =
                        (if status = ESCALATED
                         then \<lparr> n_id = ''notif-'' @ showNat (clk 5),
                                n_ticketId = t_id newTicket,
                                n_preId = preId,
                                n_uid = t_uid newTicket,
                                n_message = resubmittedMessage (t_uid newTicket) (t_id newTicket),
                                n_timestamp = clk 6,
                                n_isRead = False \<rparr> # mockNotifications s
                         else mockNotifications s);
                      k = (if status = ESCALATED then 7 else 5);
                      mockAdminNotifications1 = newAdminNotification1 # mockAdminNotifications s;
                      mockNotifications2 =
                        (case automatedMessageToSend of
                           Some automated \<Rightarrow>
                             if status = CLOSED
                             then \<lparr> n_id = ''notif-'' @ showNat (clk k),
                                    n_ticketId = t_id newTicket,
                                    n_preId = preId,
                                    n_uid = t_uid newTicket,
                                    n_message = autoClosedMessage (t_uid newTicket)
                                                  (t_id newTicket) (m_message automated),
                                    n_timestamp = clk (k + 1),
                                    n_isRead = False \<rparr> # mockNotifications1
                             else mockNotifications1
                         | None \<Rightarrow> mockNotifications1);
                      k' = (if status = CLOSED \<and> automatedMessageToSend \<noteq> None
                            then k + 2 else k);
                      s1 = s \<lparr> mockTickets := mockTickets1,
                               mockNotifications := mockNotifications2,
                               mockAdminNotifications := mockAdminNotifications1,
                               tickets := mockTickets1,
                               notifications := mockNotifications2,
                               adminNotifications := mockAdminNotifications1 \<rparr>
                  in Inr (addLog (\<lambda>i. clk (k' + i))
                            \<lparr> ld_ticketId = t_id newTicket,
                              ld_userId = preId,
                              ld_action = ''CREATE'',
                              ld_details = createDetails (t_uid newTicket) status \<rparr>
                            s1))))"

section \<open>The ticket store: updateTicket\<close>

definition escalatedAdminMessage :: "string \<Rightarrow> string" where
  "escalatedAdminMessage uid = ''Ticket for UID '' @ uid @ '' has been escalated.''"

definition escalatedMessage :: "string \<Rightarrow> string \<Rightarrow> string" where
  "escalatedMessage uid ticketId =
     ''Your ticket #'' @ idNumber ticketId @ '' for UID '' @ uid @
     '' has been manually escalated.''"

text \<open>\<^verbatim>\<open>updatedTicket.comment || 'No comment provided.'\<close>: the placeholder stands in
  for a comment that is \<^verbatim>\<open>undefined\<close> and for the empty string alike.\<close>

definition commentOrPlaceholder :: "string option \<Rightarrow> string" where
  "commentOrPlaceholder c =
     (case c of None \<Rightarrow> ''No comment provided.''
      | Some text \<Rightarrow> if text = [] then ''No comment provided.'' else text)"

definition resolvedMessage :: "string \<Rightarrow> string \<Rightarrow> string option \<Rightarrow> string" where
  "resolvedMessage uid ticketId c =
     ''Your ticket #'' @ idNumber ticketId @ '' for UID '' @ uid @
     '' has been resolved. DataCR Comment: '' @ [CHR 0x22] @ commentOrPlaceholder c @
     [CHR 0x22]"

definition updateDetails :: "TicketPatch \<Rightarrow> TicketStatus option \<Rightarrow> string" where
  "updateDetails ticketData originalStatus =
     (case p_status ticketData of
        Some status \<Rightarrow>
          if Some status \<noteq> originalStatus
          then ''Status changed to '' @ statusText status @ '' for ticket '' @
               p_id ticketData @ ''.''
          else ''Ticket details updated for '' @ p_id ticketData @ ''.''
      | None \<Rightarrow> ''Ticket details updated for '' @ p_id ticketData @ ''.'')"

text \<open>\<^verbatim>\<open>{ ...mockTickets[ticketIndex], ...ticketData, updatedAt: now }\<close>: each property
  the patch carries overwrites the ticket's, and \<^verbatim>\<open>updatedAt\<close> is always the reading
  of the clock.\<close>

definition applyPatch :: "Ticket \<Rightarrow> TicketPatch \<Rightarrow> nat \<Rightarrow> Ticket" where
  "applyPatch t ticketData now =
     \<lparr> t_id = p_id ticketData,
       t_uid = (case p_uid ticketData of None \<Rightarrow> t_uid t | Some v \<Rightarrow> v),
       t_preId = (case p_preId ticketData of None \<Rightarrow> t_preId t | Some v \<Rightarrow> v),
       t_errorTypeId = (case p_errorTypeId ticketData of None \<Rightarrow> t_errorTypeId t | Some v \<Rightarrow> v),
       t_description = (case p_description ticketData of None \<Rightarrow> t_description t | Some v \<Rightarrow> v),
       t_comment = (case p_comment ticketData of None \<Rightarrow> t_comment t | Some v \<Rightarrow> v),
       t_status = (case p_status ticketData of None \<Rightarrow> t_status t | Some v \<Rightarrow> v),
       t_createdAt = (case p_createdAt ticketData of None \<Rightarrow> t_createdAt t | Some v \<Rightarrow> v),
       t_updatedAt = now,
       t_rpName = (case p_rpName ticketData of None \<Rightarrow> t_rpName t | Some v \<Rightarrow> v),
       t_team = (case p_team ticketData of None \<Rightarrow> t_team t | Some v \<Rightarrow> v),
       t_subject = (case p_subject ticketData of None \<Rightarrow> t_subject t | Some v \<Rightarrow> v),
       t_attachment = (case p_attachment ticketData of None \<Rightarrow> t_attachment t | Some v \<Rightarrow> v) \<rparr>"

text \<open>
  The body of \<^verbatim>\<open>if (ticketIndex > -1)\<close>, lines 185 to 226: the ticket is replaced and
  the two notification rules are tested one after the other, each by an \<^verbatim>\<open>if\<close> of
  its own. The result is the new state and the number of clock readings made so far
  (the reading 0 is \<^verbatim>\<open>updatedAt\<close>).
\<close>

definition updateFound :: "(nat \<Rightarrow> nat) \<Rightarrow> TicketPatch \<Rightarrow> nat \<Rightarrow> State \<Rightarrow> State \<times> nat" where
  "updateFound clk ticketData ticketIndex s =
     (let originalTicket = mockTickets s ! ticketIndex;
          originalStatus = t_status originalTicket;
          updatedTicket = applyPatch originalTicket ticketData (clk 0);
          s1 = s \<lparr> mockTickets := (mockTickets s)[ticketIndex := updatedTicket] \<rparr>;
          escalate = (p_status ticketData = Some ESCALATED \<and> originalStatus \<noteq> ESCALATED);
          s2 = (if escalate
                then s1 \<lparr> mockAdminNotifications :=
                            \<lparr> an_id = ''admin-notif-'' @ showNat (clk 1),
                              an_ticketId = p_id ticketData,
                              an_message = escalatedAdminMessage (t_uid originalTicket),
                              an_timestamp = clk 2,
                              an_isRead = False \<rparr> # mockAdminNotifications s1,
                          mockNotifications :=
                            \<lparr> n_id = ''notif-escalated-'' @ showNat (clk 3),
                              n_ticketId = t_id updatedTicket,
                              n_preId = t_preId updatedTicket,
                              n_uid = t_uid updatedTicket,
                              n_message = escalatedMessage (t_uid updatedTicket)
                                            (t_id updatedTicket),
                              n_timestamp = clk 4,
                              n_isRead = False \<rparr> # mockNotifications s1 \<rparr>
                else s1);
          k2 = (if escalate then 5 else 1);
          resolve = ((t_status updatedTicket = COMPLETED \<or> t_status updatedTicket = CLOSED) \<and>
                     originalStatus \<noteq> t_status updatedTicket);
          s3 = (if resolve
                then s2 \<lparr> mockNotifications :=
                            \<lparr> n_id = ''notif-'' @ showNat (clk k2),
                              n_ticketId = t_id updatedTicket,
                              n_preId = t_preId updatedTicket,
                              n_uid = t_uid updatedTicket,
                              n_message = resolvedMessage (t_uid updatedTicket)
                                            (t_id updatedTicket) (t_comment updatedTicket),
                              n_timestamp = clk (k2 + 1),
                              n_isRead = False \<rparr> # mockNotifications s2 \<rparr>
                else s2);
          k3 = (if resolve then k2 + 2 else k2)
      in (s3, k3))"

text \<open>\<^verbatim>\<open>useSessionStore.getState().user?.id\<close>, tested with \<^verbatim>\<open>!adminId\<close>.\<close>

definition actingUserId :: "State \<Rightarrow> string option" where
  "actingUserId s =
     (case sessionUser s of None \<Rightarrow> None
      | Some user \<Rightarrow> if u_id user = [] then None else Some (u_id user))"

definition updateTicket :: "(nat \<Rightarrow> nat) \<Rightarrow> TicketPatch \<Rightarrow> State \<Rightarrow> State" where
  "updateTicket clk ticketData s =
     (case actingUserId s of
        None \<Rightarrow> s
      | Some adminId \<Rightarrow>
         (let ticketIndex = findIndex (\<lambda>t. t_id t = p_id ticketData) (mockTickets s);
              originalStatus = map_option (\<lambda>i. t_status (mockTickets s ! i)) ticketIndex;
              (s1, k) = (case ticketIndex of
                           None \<Rightarrow> (s, 1)
                         | Some i \<Rightarrow> updateFound clk ticketData i s);
              s2 = s1 \<lparr> tickets := mockTickets s1,
                        notifications := mockNotifications s1,
                        adminNotifications := mockAdminNotifications s1 \<rparr>
          in addLog (\<lambda>i. clk (k + i))
               \<lparr> ld_ticketId = p_id ticketData,
                 ld_userId = adminId,
                 ld_action = ''UPDATE'',
                 ld_details = updateDetails ticketData originalStatus \<rparr>
               s2))"

section \<open>The ticket store: marking notifications as read\<close>

definition markAdminNotificationAsRead :: "string \<Rightarrow> State \<Rightarrow> State" where
  "markAdminNotificationAsRead notificationId s =
     (let mock' = (case findIndex (\<lambda>n. an_id n = notificationId) (mockAdminNotifications s) of
                     None \<Rightarrow> mockAdminNotifications s
                   | Some notifIndex \<Rightarrow>
                       (mockAdminNotifications s)
                         [notifIndex := (mockAdminNotifications s ! notifIndex)
                                          \<lparr> an_isRead := True \<rparr>])
      in s \<lparr> mockAdminNotifications := mock', adminNotifications := mock' \<rparr>)"

definition markSystemNotificationAsRead :: "string \<Rightarrow> State \<Rightarrow> State" where
  "markSystemNotificationAsRead notificationId s =
     (let mock' = (case findIndex (\<lambda>n. n_id n = notificationId) (mockNotifications s) of
                     None \<Rightarrow> mockNotifications s
                   | Some notifIndex \<Rightarrow>
                       (mockNotifications s)
                         [notifIndex := (mockNotifications s ! notifIndex)
                                          \<lparr> n_isRead := True \<rparr>])
      in s \<lparr> mockNotifications := mock', notifications := mock' \<rparr>)"

section \<open>The hierarchy of reports: getSubordinateIds (TeamTickets.tsx)\<close>

text \<open>
  The \<^verbatim>\<open>for\<close> loop over the direct subordinates of the current manager, on the triple
  of the \<^verbatim>\<open>visited\<close> set, the \<^verbatim>\<open>subordinates\<close> array and the \<^verbatim>\<open>queue\<close>.
\<close>

fun visitAll :: "User list \<Rightarrow> string set \<times> string list \<times> string list
                   \<Rightarrow> string set \<times> string list \<times> string list" where
  "visitAll [] acc = acc"
| "visitAll (subordinate # rest) (visited, subordinates, queue) =
     (if u_id subordinate \<notin> visited
      then visitAll rest (insert (u_id subordinate) visited,
                          subordinates @ [u_id subordinate],
                          queue @ [u_id subordinate])
      else visitAll rest (visited, subordinates, queue))"

text \<open>
  The \<^verbatim>\<open>while (head < queue.length)\<close> loop. Nothing in its shape bounds the number of
  iterations, so it is a partial function: \<open>None\<close> is a loop that never ends.
\<close>

partial_function (option) subordinateLoop ::
  "User list \<Rightarrow> nat \<Rightarrow> string set \<times> string list \<times> string list \<Rightarrow> string list option" where
  "subordinateLoop allUsers head acc =
     (case acc of (visited, subordinates, queue) \<Rightarrow>
        if head < length queue
        then (let currentManagerId = queue ! head;
                  directSubordinates =
                    filter (\<lambda>u. u_managerId u = Some currentManagerId) allUsers
              in subordinateLoop allUsers (head + 1)
                   (visitAll directSubordinates (visited, subordinates, queue)))
        else Some subordinates)"

definition getSubordinateIds :: "string \<Rightarrow> User list \<Rightarrow> string list option" where
  "getSubordinateIds managerId allUsers =
     subordinateLoop allUsers 0 ({managerId}, [], [managerId])"

text \<open>The reporting lines: the pairs of a manager id and the id of a user whose
  \<^verbatim>\<open>managerId\<close> is that id.\<close>

definition reportsTo :: "User list \<Rightarrow> (string \<times> string) set" where
  "reportsTo allUsers =
     {(mgr, sub). \<exists>u \<in> set allUsers. u_managerId u = Some mgr \<and> u_id u = sub}"

section \<open>Example data\<close>

text \<open>A representative, two automated messages and a ticket draft of the kind
  \<^verbatim>\<open>mockData.ts\<close> holds, for evaluating the operations.\<close>

definition exUser :: User where
  "exUser = \<lparr> u_id = ''user-1'', u_name = ''Alice (PRE)'', u_email = ''pre@example.com'',
               u_role = PRE, u_team = Some ONBOARDING, u_managerId = Some ''user-bdm-1'' \<rparr>"

definition exMessages :: "AutomatedMessage list" where
  "exMessages =
     [\<lparr> m_id = ''msg-1'', m_errorTypeId = ''et-1'',
         m_message = ''A data mismatch has been detected. We are investigating.'' \<rparr>,
      \<lparr> m_id = ''msg-3'', m_errorTypeId = ''et-4'',
         m_message = ''This issue has been auto-resolved.'' \<rparr>]"

definition exState :: State where
  "exState = \<lparr> sessionUser = Some exUser, sessionTeam = Some ''Onboarding Team'',
                mockMessages = exMessages, mockTickets = [], mockNotifications = [],
                mockAdminNotifications = [], mockLogs = [], tickets = [],
                notifications = [], adminNotifications = [], logs = [],
                kpis = \<lparr> k_activeTickets = 0, k_closedTickets = 0,
                         k_avgTimeToSolve = ''N/A'' \<rparr> \<rparr>"

definition exDraft :: TicketDraft where
  "exDraft = \<lparr> d_uid = ''UID500'', d_errorTypeId = ''et-4'', d_description = ''fuzzy'',
                d_comment = Some [], d_rpName = None, d_subject = None,
                d_attachment = None \<rparr>"

definition exClock :: "nat \<Rightarrow> nat" where
  "exClock k = 1700000000000 + k"

text \<open>An area manager whose profile carries a team and whose \<^verbatim>\<open>id\<close> is the empty
  string.\<close>

definition emptyIdUser :: User where
  "emptyIdUser = \<lparr> u_id = [], u_name = ''Eve (ASM Onboarding)'', u_email = ''asm@example.com'',
                    u_role = ASM, u_team = Some ONBOARDING, u_managerId = None \<rparr>"

definition emptyIdState :: State where
  "emptyIdState = exState \<lparr> sessionUser := Some emptyIdUser, sessionTeam := None \<rparr>"

text \<open>A patch for a ticket id that no ticket has, a stored ticket, and a patch that
  completes it with a comment.\<close>

definition patch404 :: TicketPatch where
  "patch404 = \<lparr> p_id = ''ticket-404'', p_uid = None, p_preId = None, p_errorTypeId = None,
                 p_description = None, p_comment = None, p_status = Some COMPLETED,
                 p_createdAt = None, p_updatedAt = None, p_rpName = None, p_team = None,
                 p_subject = None, p_attachment = None \<rparr>"

definition exTicket :: Ticket where
  "exTicket = \<lparr> t_id = ''ticket-150'', t_uid = ''UID12345'', t_preId = ''user-1'',
                 t_errorTypeId = ''et-3'', t_description = ''cannot log in'',
                 t_comment = None, t_status = IN_PROGRESS, t_createdAt = 1690000000000,
                 t_updatedAt = 1690000000500, t_rpName = Some ''RP John'',
                 t_team = ''Onboarding Team'', t_subject = None, t_attachment = None \<rparr>"

definition exTicketState :: State where
  "exTicketState = exState \<lparr> mockTickets := [exTicket], tickets := [exTicket] \<rparr>"

definition completePatch :: TicketPatch where
  "completePatch = \<lparr> p_id = ''ticket-150'', p_uid = None, p_preId = None,
                      p_errorTypeId = None, p_description = None,
                      p_comment = Some (Some ''fixed''), p_status = Some COMPLETED,
                      p_createdAt = None, p_updatedAt = None, p_rpName = None, p_team = None,
                      p_subject = None, p_attachment = None \<rparr>"

text \<open>A state in which the store has not yet fetched the tickets, and one without a
  session user.\<close>

definition unfetchedState :: State where
  "unfetchedState = exState \<lparr> mockTickets := [exTicket] \<rparr>"

definition loggedOutState :: State where
  "loggedOutState = exTicketState \<lparr> sessionUser := None \<rparr>"



definition timesOrdered :: "Ticket list \<Rightarrow> bool" where
  "timesOrdered ts = list_all (\<lambda>t. t_createdAt t \<le> t_updatedAt t) ts"

definition ticketsOrdered :: "State \<Rightarrow> bool" where
  "ticketsOrdered s = (timesOrdered (mockTickets s) \<and> timesOrdered (tickets s))"

definition futurePatch :: TicketPatch where
  "futurePatch = \<lparr> p_id = ''ticket-150'', p_uid = None, p_preId = None,
                    p_errorTypeId = None, p_description = None, p_comment = None,
                    p_status = None, p_createdAt = Some 1800000000000, p_updatedAt = None,
                    p_rpName = None, p_team = None, p_subject = None, p_attachment = None \<rparr>"

text \<open>Users in the reporting lines of \<^verbatim>\<open>mockData.ts\<close>, users whose manager references
  form a cycle, and a user whose \<^verbatim>\<open>managerId\<close> is the empty string (the value of the
  form's \<^verbatim>\<open>Select a manager\<close> option). The predicate \<open>loopInv\<close> is the invariant of
  the \<^verbatim>\<open>while\<close> loop of \<^verbatim>\<open>getSubordinateIds\<close>.\<close>

definition mkUser :: "string \<Rightarrow> Role \<Rightarrow> string option \<Rightarrow> User" where
  "mkUser i r mgr = \<lparr> u_id = i, u_name = [], u_email = [], u_role = r,
                       u_team = Some ONBOARDING, u_managerId = mgr \<rparr>"

definition exUsers :: "User list" where
  "exUsers = [mkUser ''user-1'' PRE (Some ''user-bdm-1''),
              mkUser ''user-2'' ADMIN None,
              mkUser ''user-3'' PRE (Some ''user-bdm-1''),
              mkUser ''user-asm-1'' ASM None,
              mkUser ''user-bdm-1'' BDM (Some ''user-asm-1'')]"

definition cyclicUsers :: "User list" where
  "cyclicUsers = [mkUser ''user-a'' BDM (Some ''user-b''),
                  mkUser ''user-b'' ASM (Some ''user-a''),
                  mkUser ''user-c'' PRE (Some ''user-a'')]"

definition unassignedUsers :: "User list" where
  "unassignedUsers = [mkUser ''user-9'' PRE (Some [])]"

definition loopInv :: "string \<Rightarrow> User list \<Rightarrow> nat \<Rightarrow> string set \<times> string list \<times> string list \<Rightarrow> bool" where
  "loopInv m us h acc =
     (case acc of (V, S, Q) \<Rightarrow>
        Q = m # S \<and> V = set Q \<and> distinct Q \<and> h \<le> length Q \<and>
        set Q \<subseteq> (reportsTo us)\<^sup>* `` {m} \<and>
        (\<forall>j < h. reportsTo us `` {Q ! j} \<subseteq> set Q))"

text \<open>
  \<open>storedTickets\<close> reads the backing array of tickets off the outcome of \<^verbatim>\<open>addTicket\<close>.
  \<open>staleState\<close> is the store before its first fetch: the backing array holds a ticket for
  the uid and error type of the draft, the published \<^verbatim>\<open>tickets\<close> are still empty.
  \<open>backwardClock\<close> is a clock that is set back between two readings. The last two states
  hold two notifications of each kind, all unread, and a read system notification before an
  unread one.
\<close>

definition storedTickets :: "Error + State \<Rightarrow> Ticket list" where
  "storedTickets r = (case r of Inl e \<Rightarrow> [] | Inr s \<Rightarrow> mockTickets s)"

definition priorTicket :: Ticket where
  "priorTicket = exTicket \<lparr> t_id := ''ticket-149'', t_uid := ''UID500'',
                             t_errorTypeId := ''et-4'', t_status := CLOSED \<rparr>"

definition staleState :: State where
  "staleState = exState \<lparr> mockTickets := [priorTicket] \<rparr>"

definition backwardClock :: "nat \<Rightarrow> nat" where
  "backwardClock k = 1700000000010 - k"






section \<open>JavaScript numbers\<close>

text \<open>
  A finite JavaScript number is a rational. \<open>binary64\<close> rounds a rational to the nearest
  IEEE 754 double, ties to the even significand: the significand has 53 bits, \<open>exponentOf\<close>
  is the binary exponent of the value (\<open>ilog2\<close> is the number of halvings of an integer
  down to 1). The range of the exponent is not modelled: no value of the computations
  below on instants of the \<^verbatim>\<open>Date\<close> range comes near 2 to the power 1024 or -1022.
\<close>

function ilog2 :: "int \<Rightarrow> int" where
  "ilog2 n = (if n < 2 then 0 else 1 + ilog2 (n div 2))"
  by pat_completeness auto
termination
  by (relation "measure nat") auto

declare ilog2.simps [simp del]

definition exponentOf :: "rat \<Rightarrow> int" where
  "exponentOf y =
     (case quotient_of y of (a, b) \<Rightarrow>
        let d = ilog2 a - ilog2 b
        in if 2 powi d \<le> y then d else d - 1)"

definition roundEven :: "rat \<Rightarrow> int" where
  "roundEven y =
     (let f = \<lfloor>y\<rfloor>; r = y - of_int f
      in if r < 1 / 2 then f else if 1 / 2 < r then f + 1
         else if even f then f else f + 1)"

definition binary64 :: "rat \<Rightarrow> rat" where
  "binary64 q =
     (if q = 0 then 0
      else let y = \<bar>q\<bar>; e = exponentOf y - 52; m = roundEven (y / 2 powi e)
           in sgn q * of_int m * 2 powi e)"

section \<open>The ticket store: calculateKPIs\<close>

text \<open>
  The arithmetic of \<^verbatim>\<open>calculateKPIs\<close> is that of JavaScript numbers: each sum, difference
  and quotient is rounded to a double. \<open>getTime\<close> is \<^verbatim>\<open>new Date(s).getTime()\<close> on the
  stored instant: a time value is an integer of at most 8.64e15 in magnitude, which a double
  holds exactly. \<open>toFixed1\<close> is \<^verbatim>\<open>Number.prototype.toFixed(1)\<close>, step by step as
  ECMA-262 gives it: the sign, the integer \<open>n\<close> nearest to ten times the value (the larger
  of two), its digits padded to two, and the point before the last digit; \<open>None\<close> stands
  for a value of 10 to the power 21 or more, which is printed in exponent notation.
  \<open>calculateKPIs\<close> publishes the three figures as \<^verbatim>\<open>kpis\<close>.

  \<open>resolutionTime\<close> and \<open>meanDays\<close> follow the words of the specification: the time from
  creation to the last update in milliseconds, and the exact mean of these times in days.
\<close>

definition jsAdd :: "rat \<Rightarrow> rat \<Rightarrow> rat" where
  "jsAdd a b = binary64 (a + b)"

definition jsSub :: "rat \<Rightarrow> rat \<Rightarrow> rat" where
  "jsSub a b = binary64 (a - b)"

definition jsDiv :: "rat \<Rightarrow> rat \<Rightarrow> rat" where
  "jsDiv a b = binary64 (a / b)"

definition getTime :: "nat \<Rightarrow> rat" where
  "getTime instant = of_nat instant"

definition toFixed1 :: "rat \<Rightarrow> string option" where
  "toFixed1 x =
     (let s = (if x < 0 then ''-'' else '''');
          x' = \<bar>x\<bar>
      in if 10 ^ 21 \<le> x' then None
         else
          (let n = nat \<lfloor>x' * 10 + 1 / 2\<rfloor>;
               m = showNat n;
               k = length m;
               m' = (if k \<le> 1 then replicate (2 - k) CHR ''0'' @ m else m);
               k' = (if k \<le> 1 then 2 else k)
           in Some (s @ take (k' - 1) m' @ ''.'' @ drop (k' - 1) m')))"

definition totalSolveTime :: "Ticket list \<Rightarrow> rat" where
  "totalSolveTime closedOrCompletedTickets =
     foldl (\<lambda>acc t.
              let created = getTime (t_createdAt t);
                  updated = getTime (t_updatedAt t)
              in jsAdd acc (jsSub updated created))
       0 closedOrCompletedTickets"

definition calculateKPIs :: "Ticket list \<Rightarrow> State \<Rightarrow> State option" where
  "calculateKPIs filteredTickets s =
     (let activeTickets =
            length (filter (\<lambda>t. t_status t = IN_PROGRESS \<or> t_status t = ESCALATED)
                      filteredTickets);
          closedOrCompletedTickets =
            filter (\<lambda>t. t_status t = COMPLETED \<or> t_status t = CLOSED) filteredTickets;
          closedTickets = length closedOrCompletedTickets;
          avgTimeToSolve =
            (if closedTickets > 0
             then (let avgMilliseconds =
                         jsDiv (totalSolveTime closedOrCompletedTickets) (of_nat closedTickets);
                       avgDays = jsDiv avgMilliseconds (1000 * 60 * 60 * 24)
                   in map_option (\<lambda>fixed. fixed @ '' days'') (toFixed1 avgDays))
             else Some ''N/A'')
      in map_option
           (\<lambda>avg. s \<lparr> kpis := \<lparr> k_activeTickets = activeTickets,
                                  k_closedTickets = closedTickets,
                                  k_avgTimeToSolve = avg \<rparr> \<rparr>)
           avgTimeToSolve)"

definition solvedTicket :: "nat \<Rightarrow> nat \<Rightarrow> Ticket" where
  "solvedTicket created updated =
     exTicket \<lparr> t_status := COMPLETED, t_createdAt := created, t_updatedAt := updated \<rparr>"

definition resolutionTime :: "Ticket \<Rightarrow> int" where
  "resolutionTime t = int (t_updatedAt t) - int (t_createdAt t)"

definition meanDays :: "Ticket list \<Rightarrow> rat" where
  "meanDays closedOrCompleted =
     of_int (sum_list (map resolutionTime closedOrCompleted)) /
     of_nat (length closedOrCompleted) / 86400000"

definition exTickets :: "Ticket list" where
  "exTickets = [solvedTicket 1700000000000 1700276480000, exTicket,
                solvedTicket 1690000000000 1690276480000]"

section \<open>Facts about the library functions\<close>

lemma find_eq_None: "(find P xs = None) = (\<forall>x \<in> set xs. \<not> P x)"
  by (induction xs) auto

lemma find_SomeD: "find P xs = Some x \<Longrightarrow> x \<in> set xs \<and> P x"
  by (induction xs) (auto split: if_splits)

lemma findIndex_eq_None: "(findIndex P xs = None) = (\<forall>x \<in> set xs. \<not> P x)"
  by (induction xs) auto

lemma findIndex_SomeD:
  "findIndex P xs = Some i \<Longrightarrow> i < length xs \<and> P (xs ! i) \<and> (\<forall>j < i. \<not> P (xs ! j))"
proof (induction xs arbitrary: i)
  case Nil
  then show ?case by simp
next
  case (Cons x xs)
  show ?case
  proof (cases "P x")
    case True
    with Cons.prems show ?thesis by simp
  next
    case False
    with Cons.prems obtain k where k: "findIndex P xs = Some k" "i = Suc k"
      by auto
    from Cons.IH [OF k(1)] False k(2) show ?thesis
      by (auto simp: less_Suc_eq_0_disj)
  qed
qed

lemma idNumber_150: "idNumber ''ticket-150'' = ''150''"
  by (simp add: idNumber_def)

section \<open>Creating a ticket\<close>

lemma initialStatus_cases:
  "initialStatus d s =
     (if \<forall>m \<in> set (mockMessages s). m_errorTypeId m \<noteq> d_errorTypeId d then IN_PROGRESS
      else if \<forall>t \<in> set (tickets s). \<not> (t_uid t = d_uid d \<and> t_errorTypeId t = d_errorTypeId d)
           then CLOSED else ESCALATED)"
  by (auto simp: initialStatus_def find_eq_None split: option.splits dest!: find_SomeD)

lemma initialStatus_not_COMPLETED: "initialStatus d s \<noteq> COMPLETED"
  by (simp add: initialStatus_def split: option.splits)

lemma addTicket_success:
  assumes "addTicket clk d s = Inr s'"
  shows "\<exists>user team. sessionUser s = Some user \<and> resolvedTeam user s = Some team \<and>
           u_id user \<noteq> [] \<and> team \<noteq> []"
  using assms by (auto simp: addTicket_def Let_def split: option.splits if_splits)

lemma addTicket_tickets:
  assumes "addTicket clk d s = Inr s'" "sessionUser s = Some user"
  shows "\<exists>team. resolvedTeam user s = Some team \<and>
           mockTickets s' =
             \<lparr> t_id = ''ticket-'' @ showNat (clk 0), t_uid = d_uid d, t_preId = u_id user,
               t_errorTypeId = d_errorTypeId d, t_description = d_description d,
               t_comment = d_comment d, t_status = initialStatus d s,
               t_createdAt = clk 1, t_updatedAt = clk 2, t_rpName = d_rpName d,
               t_team = team, t_subject = d_subject d, t_attachment = d_attachment d \<rparr>
             # mockTickets s \<and>
           tickets s' = mockTickets s'"
  using assms
  by (auto simp: addTicket_def Let_def addLog_def split: option.splits if_splits)

lemma addTicket_admin:
  assumes "addTicket clk d s = Inr s'"
  shows "mockAdminNotifications s' =
           \<lparr> an_id = ''admin-notif-'' @ showNat (clk 3),
             an_ticketId = ''ticket-'' @ showNat (clk 0),
             an_message = (if initialStatus d s = ESCALATED
                           then resubmittedAdminMessage (d_uid d)
                           else createdAdminMessage (d_uid d)),
             an_timestamp = clk 4, an_isRead = False \<rparr> # mockAdminNotifications s \<and>
         adminNotifications s' = mockAdminNotifications s'"
  using assms
  by (auto simp: addTicket_def Let_def addLog_def split: option.splits if_splits)

lemma addTicket_logs:
  assumes "addTicket clk d s = Inr s'" "sessionUser s = Some user"
  shows "\<exists>i ts. mockLogs s' =
           \<lparr> l_id = i, l_ticketId = ''ticket-'' @ showNat (clk 0), l_userId = u_id user,
             l_action = ''CREATE'', l_timestamp = ts,
             l_details = createDetails (d_uid d) (initialStatus d s) \<rparr> # mockLogs s \<and>
         logs s' = mockLogs s'"
  using assms
  by (auto simp: addTicket_def Let_def addLog_def split: option.splits if_splits)

lemma addTicket_notifications:
  assumes "addTicket clk d s = Inr s'" "sessionUser s = Some user"
  shows "mockNotifications s' =
          (case find (\<lambda>m. m_errorTypeId m = d_errorTypeId d) (mockMessages s) of
             None \<Rightarrow> mockNotifications s
           | Some automated \<Rightarrow>
              (if initialStatus d s = ESCALATED
               then \<lparr> n_id = ''notif-'' @ showNat (clk 5),
                      n_ticketId = ''ticket-'' @ showNat (clk 0), n_preId = u_id user,
                      n_uid = d_uid d,
                      n_message = resubmittedMessage (d_uid d) (''ticket-'' @ showNat (clk 0)),
                      n_timestamp = clk 6, n_isRead = False \<rparr> # mockNotifications s
               else \<lparr> n_id = ''notif-'' @ showNat (clk 5),
                      n_ticketId = ''ticket-'' @ showNat (clk 0), n_preId = u_id user,
                      n_uid = d_uid d,
                      n_message = autoClosedMessage (d_uid d) (''ticket-'' @ showNat (clk 0))
                                    (m_message automated),
                      n_timestamp = clk 6, n_isRead = False \<rparr> # mockNotifications s)) \<and>
         notifications s' = mockNotifications s'"
  using assms
  by (auto simp: addTicket_def Let_def addLog_def initialStatus_def
           split: option.splits if_splits)

lemma exState_addTicket: "\<exists>s'. addTicket exClock exDraft exState = Inr s'"
  by (simp add: addTicket_def exState_def exUser_def resolvedTeam_def Let_def)

text \<open>
  Claim C1, as amended. Every successful \<^verbatim>\<open>addTicket\<close> puts one new ticket at the head
  of the ticket collection, and the status of that ticket is: In Progress when no automated
  message refers to the draft's error type; otherwise Closed when no ticket of the
  store's published \<^verbatim>\<open>tickets\<close> (\<^verbatim>\<open>get().tickets\<close>) has the draft's uid together with
  its error type; otherwise Escalated.
\<close>

theorem addTicket_initial_status:
  assumes "addTicket clk d s = Inr s'"
  shows "\<exists>t. mockTickets s' = t # mockTickets s \<and> tickets s' = mockTickets s' \<and>
           t_status t =
             (if \<forall>m \<in> set (mockMessages s). m_errorTypeId m \<noteq> d_errorTypeId d
              then IN_PROGRESS
              else if \<forall>t' \<in> set (tickets s).
                        \<not> (t_uid t' = d_uid d \<and> t_errorTypeId t' = d_errorTypeId d)
                   then CLOSED else ESCALATED)"
proof -
  from addTicket_success [OF assms] obtain user where u: "sessionUser s = Some user"
    by blast
  from addTicket_tickets [OF assms u] show ?thesis
    by (auto simp: initialStatus_cases)
qed

theorem addTicket_initial_status_witness:
  "\<exists>s' t. addTicket exClock exDraft exState = Inr s' \<and>
          mockTickets s' = t # mockTickets exState \<and> t_status t = CLOSED"
proof -
  from exState_addTicket obtain s' where h: "addTicket exClock exDraft exState = Inr s'" ..
  from addTicket_initial_status [OF h] show ?thesis
    using h by (auto simp: exState_def exMessages_def exDraft_def)
qed

text \<open>
  Claim C1 as stated fails while the published \<^verbatim>\<open>tickets\<close> are behind the backing array
  (the store starts with \<^verbatim>\<open>tickets: []\<close>): a stored ticket has the uid and the error type
  of the draft, an automated message exists, and the new ticket is Closed, not Escalated.
\<close>

theorem addTicket_stale_tickets_counterexample:
  "map m_errorTypeId (mockMessages staleState) = [''et-1'', ''et-4''] \<and>
   d_uid exDraft = ''UID500'' \<and> d_errorTypeId exDraft = ''et-4'' \<and>
   map t_uid (mockTickets staleState) = [''UID500''] \<and>
   map t_errorTypeId (mockTickets staleState) = [''et-4''] \<and>
   tickets staleState = [] \<and>
   map t_status (storedTickets (addTicket exClock exDraft staleState)) = [CLOSED, CLOSED] \<and>
   map t_uid (storedTickets (addTicket exClock exDraft staleState)) = [''UID500'', ''UID500'']"
  by (simp add: staleState_def priorTicket_def exTicket_def exState_def exMessages_def
                exDraft_def exUser_def storedTickets_def addTicket_def resolvedTeam_def
                initialStatus_def addLog_def Let_def)

lemma admin_messages_differ: "resubmittedAdminMessage uid \<noteq> createdAdminMessage uid"
  by (simp add: resubmittedAdminMessage_def createdAdminMessage_def)

text \<open>
  Claim C2. Every successful \<^verbatim>\<open>addTicket\<close> adds exactly one admin notification for
  the new ticket, whose text is the re-submission text when the ticket is Escalated and the
  creation text otherwise, and exactly one audit entry of action \<^verbatim>\<open>CREATE\<close> whose
  details name the uid and the status. A Closed ticket adds exactly one system notification
  to the owning representative, ending in the text of the automated message; an Escalated
  ticket adds exactly one system notification that reports the escalation; an In Progress
  ticket adds none. The two admin texts differ (lemma \<open>admin_messages_differ\<close>).
\<close>

theorem addTicket_side_effects:
  assumes "addTicket clk d s = Inr s'"
  shows "\<exists>t an l.
           mockTickets s' = t # mockTickets s \<and>
           mockAdminNotifications s' = an # mockAdminNotifications s \<and>
           an_ticketId an = t_id t \<and> \<not> an_isRead an \<and>
           an_message an =
             (if t_status t = ESCALATED
              then ''Ticket for UID '' @ d_uid d @ '' was re-submitted and has been escalated.''
              else ''New ticket from UID '' @ d_uid d @ '' was created.'') \<and>
           mockLogs s' = l # mockLogs s \<and>
           l_action l = ''CREATE'' \<and> l_ticketId l = t_id t \<and> l_userId l = t_preId t \<and>
           l_details l = ''Ticket created for UID '' @ d_uid d @ '' with status '' @
                         statusText (t_status t) @ ''.'' \<and>
           (case t_status t of
              CLOSED \<Rightarrow>
                (\<exists>n automated.
                   mockNotifications s' = n # mockNotifications s \<and>
                   find (\<lambda>m. m_errorTypeId m = d_errorTypeId d) (mockMessages s) =
                     Some automated \<and>
                   n_ticketId n = t_id t \<and> n_preId n = t_preId t \<and> \<not> n_isRead n \<and>
                   n_message n = ''Ticket #'' @ idNumber (t_id t) @ '' for UID '' @ d_uid d @
                                 '': '' @ m_message automated)
            | ESCALATED \<Rightarrow>
                (\<exists>n. mockNotifications s' = n # mockNotifications s \<and>
                   n_ticketId n = t_id t \<and> n_preId n = t_preId t \<and> \<not> n_isRead n \<and>
                   n_message n = ''Your ticket submission for UID '' @ d_uid d @
                                 '' (Ticket #'' @ idNumber (t_id t) @ '') was escalated.'')
            | IN_PROGRESS \<Rightarrow> mockNotifications s' = mockNotifications s
            | COMPLETED \<Rightarrow> False) \<and>
           adminNotifications s' = mockAdminNotifications s' \<and>
           notifications s' = mockNotifications s' \<and> logs s' = mockLogs s'"
proof -
  from addTicket_success [OF assms] obtain user where u: "sessionUser s = Some user"
    by blast
  note T = addTicket_tickets [OF assms u] and A = addTicket_admin [OF assms]
    and L = addTicket_logs [OF assms u] and N = addTicket_notifications [OF assms u]
  from T obtain t where t: "mockTickets s' = t # mockTickets s"
      "t_id t = ''ticket-'' @ showNat (clk 0)" "t_preId t = u_id user"
      "t_status t = initialStatus d s"
    by auto
  from L obtain l where l: "mockLogs s' = l # mockLogs s" "l_action l = ''CREATE''"
      "l_ticketId l = ''ticket-'' @ showNat (clk 0)" "l_userId l = u_id user"
      "l_details l = createDetails (d_uid d) (initialStatus d s)" "logs s' = mockLogs s'"
    by auto
  have n: "(case t_status t of
              CLOSED \<Rightarrow>
                (\<exists>n automated.
                   mockNotifications s' = n # mockNotifications s \<and>
                   find (\<lambda>m. m_errorTypeId m = d_errorTypeId d) (mockMessages s) =
                     Some automated \<and>
                   n_ticketId n = t_id t \<and> n_preId n = t_preId t \<and> \<not> n_isRead n \<and>
                   n_message n = ''Ticket #'' @ idNumber (t_id t) @ '' for UID '' @ d_uid d @
                                 '': '' @ m_message automated)
            | ESCALATED \<Rightarrow>
                (\<exists>n. mockNotifications s' = n # mockNotifications s \<and>
                   n_ticketId n = t_id t \<and> n_preId n = t_preId t \<and> \<not> n_isRead n \<and>
                   n_message n = ''Your ticket submission for UID '' @ d_uid d @
                                 '' (Ticket #'' @ idNumber (t_id t) @ '') was escalated.'')
            | IN_PROGRESS \<Rightarrow> mockNotifications s' = mockNotifications s
            | COMPLETED \<Rightarrow> False)"
    using N t(2-4)
    by (cases "find (\<lambda>m. m_errorTypeId m = d_errorTypeId d) (mockMessages s)")
       (auto simp: initialStatus_def autoClosedMessage_def resubmittedMessage_def
             split: option.splits)
  from N have v: "notifications s' = mockNotifications s'" by simp
  show ?thesis
    using t l A n v
    by (auto simp: createDetails_def resubmittedAdminMessage_def createdAdminMessage_def
             simp del: append.simps)
qed

theorem addTicket_side_effects_witness:
  "\<exists>s' an l n.
     addTicket exClock exDraft exState = Inr s' \<and>
     mockAdminNotifications s' = [an] \<and>
     an_message an = ''New ticket from UID UID500 was created.'' \<and>
     mockLogs s' = [l] \<and> l_action l = ''CREATE'' \<and>
     l_details l = ''Ticket created for UID UID500 with status Closed.'' \<and>
     mockNotifications s' = [n] \<and> n_preId n = ''user-1''"
proof -
  from exState_addTicket obtain s' where h: "addTicket exClock exDraft exState = Inr s'" ..
  have u: "sessionUser exState = Some exUser" by (simp add: exState_def)
  from addTicket_tickets [OF h u] obtain t where
    t: "mockTickets s' = t # mockTickets exState" "t_status t = CLOSED" "t_preId t = ''user-1''"
    by (auto simp: initialStatus_def exState_def exMessages_def exDraft_def exUser_def)
  from addTicket_side_effects [OF h] t h show ?thesis
    by (auto simp: exState_def exDraft_def)
qed


text \<open>
  Claim C5, as amended. \<^verbatim>\<open>addTicket\<close> fails with \<open>SessionInvalid\<close> exactly when the
  session holds no user. It fails with \<open>TeamUnresolved\<close> exactly when the session holds a
  user and either that user's id is the empty string or the team is missing or empty (the
  session's team for a representative, the profile's team for every other role). In every
  other case it succeeds and stores the fully populated ticket at the head of the ticket
  collection; the action itself returns no value.
\<close>

theorem addTicket_outcome:
  "(addTicket clk d s = Inl SessionInvalid \<longleftrightarrow> sessionUser s = None) \<and>
   (addTicket clk d s = Inl TeamUnresolved \<longleftrightarrow>
      (\<exists>user. sessionUser s = Some user \<and>
              (u_id user = [] \<or> \<not> truthy (resolvedTeam user s)))) \<and>
   (\<forall>user. sessionUser s = Some user \<and> u_id user \<noteq> [] \<and> truthy (resolvedTeam user s) \<longrightarrow>
      (\<exists>s' team. addTicket clk d s = Inr s' \<and> resolvedTeam user s = Some team \<and>
         mockTickets s' =
           \<lparr> t_id = ''ticket-'' @ showNat (clk 0), t_uid = d_uid d, t_preId = u_id user,
             t_errorTypeId = d_errorTypeId d, t_description = d_description d,
             t_comment = d_comment d, t_status = initialStatus d s,
             t_createdAt = clk 1, t_updatedAt = clk 2, t_rpName = d_rpName d,
             t_team = team, t_subject = d_subject d, t_attachment = d_attachment d \<rparr>
           # mockTickets s \<and>
         tickets s' = mockTickets s'))"
proof (intro conjI allI impI)
  show "addTicket clk d s = Inl SessionInvalid \<longleftrightarrow> sessionUser s = None"
    by (auto simp: addTicket_def Let_def split: option.splits)
  show "addTicket clk d s = Inl TeamUnresolved \<longleftrightarrow>
      (\<exists>user. sessionUser s = Some user \<and>
              (u_id user = [] \<or> \<not> truthy (resolvedTeam user s)))"
    by (auto simp: addTicket_def Let_def truthy_def split: option.splits)
next
  fix user
  assume a: "sessionUser s = Some user \<and> u_id user \<noteq> [] \<and> truthy (resolvedTeam user s)"
  then obtain team where tm: "resolvedTeam user s = Some team" "team \<noteq> []"
    by (auto simp: truthy_def split: option.splits)
  with a obtain s' where h: "addTicket clk d s = Inr s'"
    by (auto simp: addTicket_def Let_def)
  from addTicket_tickets [OF h] a tm h
  show "\<exists>s' team. addTicket clk d s = Inr s' \<and> resolvedTeam user s = Some team \<and>
         mockTickets s' =
           \<lparr> t_id = ''ticket-'' @ showNat (clk 0), t_uid = d_uid d, t_preId = u_id user,
             t_errorTypeId = d_errorTypeId d, t_description = d_description d,
             t_comment = d_comment d, t_status = initialStatus d s,
             t_createdAt = clk 1, t_updatedAt = clk 2, t_rpName = d_rpName d,
             t_team = team, t_subject = d_subject d, t_attachment = d_attachment d \<rparr>
           # mockTickets s \<and>
         tickets s' = mockTickets s'"
    by auto
qed

theorem addTicket_outcome_witness:
  "\<exists>s' t. addTicket exClock exDraft exState = Inr s' \<and> mockTickets s' = [t] \<and>
          t_uid t = ''UID500'' \<and> t_preId t = ''user-1'' \<and> t_team t = ''Onboarding Team'' \<and>
          t_status t = CLOSED \<and> t_createdAt t = 1700000000001"
proof -
  have "sessionUser exState = Some exUser \<and> u_id exUser \<noteq> [] \<and>
        truthy (resolvedTeam exUser exState)"
    by (simp add: exState_def exUser_def resolvedTeam_def truthy_def)
  with addTicket_outcome [of exClock exDraft exState] show ?thesis
    by (auto simp: exState_def exUser_def exDraft_def resolvedTeam_def exClock_def
                   initialStatus_def exMessages_def)
qed

text \<open>
  Claim C5 as stated fails for a user whose id is empty: the identity is in the session and
  the profile fixes the team, and \<^verbatim>\<open>addTicket\<close> still throws the team error
  (\<^verbatim>\<open>if (!preId || !team)\<close>).
\<close>

theorem addTicket_TeamUnresolved_counterexample:
  "sessionUser emptyIdState = Some emptyIdUser \<and>
   resolvedTeam emptyIdUser emptyIdState = Some ''Onboarding Team'' \<and>
   addTicket exClock exDraft emptyIdState = Inl TeamUnresolved"
  by (simp add: emptyIdState_def emptyIdUser_def exState_def resolvedTeam_def addTicket_def)

section \<open>Updating a ticket\<close>

lemma updateFound_parts:
  "updateFound clk p i s = (s', k) \<Longrightarrow>
     mockTickets s' = (mockTickets s)[i := applyPatch (mockTickets s ! i) p (clk 0)] \<and>
     sessionUser s' = sessionUser s \<and> mockLogs s' = mockLogs s \<and> logs s' = logs s"
  by (auto simp: updateFound_def Let_def split: if_splits)

lemma updateTicket_unresolved: "actingUserId s = None \<Longrightarrow> updateTicket clk p s = s"
  by (simp add: updateTicket_def)

lemma updateTicket_missing:
  assumes "actingUserId s = Some adminId" "findIndex (\<lambda>t. t_id t = p_id p) (mockTickets s) = None"
  shows "updateTicket clk p s =
           addLog (\<lambda>i. clk (1 + i))
             \<lparr> ld_ticketId = p_id p, ld_userId = adminId, ld_action = ''UPDATE'',
               ld_details = updateDetails p None \<rparr>
             (s \<lparr> tickets := mockTickets s, notifications := mockNotifications s,
                   adminNotifications := mockAdminNotifications s \<rparr>)"
  using assms by (simp add: updateTicket_def)

lemma updateTicket_found:
  assumes "actingUserId s = Some adminId" "findIndex (\<lambda>t. t_id t = p_id p) (mockTickets s) = Some i"
    "updateFound clk p i s = (s1, k)"
  shows "updateTicket clk p s =
           addLog (\<lambda>j. clk (k + j))
             \<lparr> ld_ticketId = p_id p, ld_userId = adminId, ld_action = ''UPDATE'',
               ld_details = updateDetails p (Some (t_status (mockTickets s ! i))) \<rparr>
             (s1 \<lparr> tickets := mockTickets s1, notifications := mockNotifications s1,
                   adminNotifications := mockAdminNotifications s1 \<rparr>)"
  using assms by (simp add: updateTicket_def)

text \<open>
  Claim C4, as amended. \<^verbatim>\<open>updateTicket\<close> never throws. When the acting user cannot be
  resolved (no session user, or one with an empty id) it leaves the whole state unchanged.
  When no ticket carries the given id it changes no ticket and adds no notification: the
  three backing collections stay as they are, and with a resolved user the store's three
  published copies are set to them.
\<close>

theorem updateTicket_tolerant:
  "(actingUserId s = None \<longrightarrow> updateTicket clk p s = s) \<and>
   ((\<forall>t \<in> set (mockTickets s). t_id t \<noteq> p_id p) \<longrightarrow>
      mockTickets (updateTicket clk p s) = mockTickets s \<and>
      mockNotifications (updateTicket clk p s) = mockNotifications s \<and>
      mockAdminNotifications (updateTicket clk p s) = mockAdminNotifications s \<and>
      (actingUserId s \<noteq> None \<longrightarrow>
         tickets (updateTicket clk p s) = mockTickets s \<and>
         notifications (updateTicket clk p s) = mockNotifications s \<and>
         adminNotifications (updateTicket clk p s) = mockAdminNotifications s))"
proof (intro conjI impI)
  assume "actingUserId s = None"
  then show "updateTicket clk p s = s" by (rule updateTicket_unresolved)
next
  assume m: "\<forall>t \<in> set (mockTickets s). t_id t \<noteq> p_id p"
  then have f: "findIndex (\<lambda>t. t_id t = p_id p) (mockTickets s) = None"
    by (simp add: findIndex_eq_None)
  show "mockTickets (updateTicket clk p s) = mockTickets s"
    by (cases "actingUserId s") (simp_all add: updateTicket_unresolved updateTicket_missing [OF _ f] addLog_def Let_def)
  show "mockNotifications (updateTicket clk p s) = mockNotifications s"
    by (cases "actingUserId s") (simp_all add: updateTicket_unresolved updateTicket_missing [OF _ f] addLog_def Let_def)
  show "mockAdminNotifications (updateTicket clk p s) = mockAdminNotifications s"
    by (cases "actingUserId s") (simp_all add: updateTicket_unresolved updateTicket_missing [OF _ f] addLog_def Let_def)
  assume "actingUserId s \<noteq> None"
  then obtain a where a: "actingUserId s = Some a" by auto
  show "tickets (updateTicket clk p s) = mockTickets s"
    by (simp add: updateTicket_missing [OF a f] addLog_def Let_def)
  show "notifications (updateTicket clk p s) = mockNotifications s"
    by (simp add: updateTicket_missing [OF a f] addLog_def Let_def)
  show "adminNotifications (updateTicket clk p s) = mockAdminNotifications s"
    by (simp add: updateTicket_missing [OF a f] addLog_def Let_def)
qed

theorem updateTicket_tolerant_witness:
  "updateTicket exClock completePatch loggedOutState = loggedOutState \<and>
   mockTickets (updateTicket exClock patch404 unfetchedState) = [exTicket] \<and>
   mockNotifications (updateTicket exClock patch404 unfetchedState) = [] \<and>
   mockAdminNotifications (updateTicket exClock patch404 unfetchedState) = [] \<and>
   tickets (updateTicket exClock patch404 unfetchedState) = [exTicket]"
proof -
  have a: "actingUserId loggedOutState = None"
    by (simp add: actingUserId_def loggedOutState_def)
  have b: "\<forall>t \<in> set (mockTickets unfetchedState). t_id t \<noteq> p_id patch404"
    by (simp add: unfetchedState_def exTicket_def patch404_def)
  have c: "actingUserId unfetchedState \<noteq> None"
    by (simp add: actingUserId_def unfetchedState_def exState_def exUser_def)
  from updateTicket_tolerant [of loggedOutState exClock completePatch] a
  have 1: "updateTicket exClock completePatch loggedOutState = loggedOutState" by blast
  from updateTicket_tolerant [of unfetchedState exClock patch404] b c
  have 2: "mockTickets (updateTicket exClock patch404 unfetchedState) = mockTickets unfetchedState \<and>
      mockNotifications (updateTicket exClock patch404 unfetchedState) = mockNotifications unfetchedState \<and>
      mockAdminNotifications (updateTicket exClock patch404 unfetchedState) = mockAdminNotifications unfetchedState \<and>
      tickets (updateTicket exClock patch404 unfetchedState) = mockTickets unfetchedState"
    by blast
  from 1 2 show ?thesis by (simp add: unfetchedState_def exState_def)
qed

text \<open>
  Claim C4 as stated fails when a user is logged in and the id matches no ticket: the
  store's published \<^verbatim>\<open>tickets\<close> change when they were not yet in step with the backing
  array (the \<^verbatim>\<open>set\<close> after the \<^verbatim>\<open>if\<close> is unconditional), and the audit log gains an
  \<^verbatim>\<open>UPDATE\<close> entry.
\<close>

theorem updateTicket_missing_counterexample:
  "actingUserId unfetchedState = Some ''user-1'' \<and>
   map t_id (mockTickets unfetchedState) = [''ticket-150''] \<and>
   p_id patch404 = ''ticket-404'' \<and>
   tickets unfetchedState = [] \<and>
   tickets (updateTicket exClock patch404 unfetchedState) = [exTicket] \<and>
   mockLogs unfetchedState = [] \<and>
   map l_details (mockLogs (updateTicket exClock patch404 unfetchedState)) =
     [''Status changed to Completed for ticket ticket-404.'']"
  by (simp add: actingUserId_def unfetchedState_def exState_def exUser_def exTicket_def
                patch404_def updateTicket_def addLog_def Let_def updateDetails_def)

lemma updateFound_notifications:
  assumes "updateFound clk p i s = (s1, k)"
  shows "(if p_status p = Some ESCALATED \<and> t_status (mockTickets s ! i) \<noteq> ESCALATED
          then mockAdminNotifications s1 =
                 \<lparr> an_id = ''admin-notif-'' @ showNat (clk 1), an_ticketId = p_id p,
                   an_message = escalatedAdminMessage (t_uid (mockTickets s ! i)),
                   an_timestamp = clk 2, an_isRead = False \<rparr> # mockAdminNotifications s \<and>
               mockNotifications s1 =
                 \<lparr> n_id = ''notif-escalated-'' @ showNat (clk 3), n_ticketId = p_id p,
                   n_preId = t_preId (applyPatch (mockTickets s ! i) p (clk 0)),
                   n_uid = t_uid (applyPatch (mockTickets s ! i) p (clk 0)),
                   n_message = escalatedMessage
                                 (t_uid (applyPatch (mockTickets s ! i) p (clk 0))) (p_id p),
                   n_timestamp = clk 4, n_isRead = False \<rparr> # mockNotifications s
          else if (t_status (applyPatch (mockTickets s ! i) p (clk 0)) = COMPLETED \<or>
                   t_status (applyPatch (mockTickets s ! i) p (clk 0)) = CLOSED) \<and>
                  t_status (mockTickets s ! i) \<noteq>
                    t_status (applyPatch (mockTickets s ! i) p (clk 0))
          then mockAdminNotifications s1 = mockAdminNotifications s \<and>
               mockNotifications s1 =
                 \<lparr> n_id = ''notif-'' @ showNat (clk 1), n_ticketId = p_id p,
                   n_preId = t_preId (applyPatch (mockTickets s ! i) p (clk 0)),
                   n_uid = t_uid (applyPatch (mockTickets s ! i) p (clk 0)),
                   n_message = resolvedMessage
                                 (t_uid (applyPatch (mockTickets s ! i) p (clk 0))) (p_id p)
                                 (t_comment (applyPatch (mockTickets s ! i) p (clk 0))),
                   n_timestamp = clk 2, n_isRead = False \<rparr> # mockNotifications s
          else mockAdminNotifications s1 = mockAdminNotifications s \<and>
               mockNotifications s1 = mockNotifications s)"
  using assms
  by (auto simp: updateFound_def Let_def applyPatch_def numeral_2_eq_2 split: if_splits)

lemma updateTicket_found_collections:
  assumes "actingUserId s = Some adminId"
    "findIndex (\<lambda>t. t_id t = p_id p) (mockTickets s) = Some i"
    "updateFound clk p i s = (s1, k)"
  shows "mockTickets (updateTicket clk p s) = mockTickets s1 \<and>
         mockNotifications (updateTicket clk p s) = mockNotifications s1 \<and>
         mockAdminNotifications (updateTicket clk p s) = mockAdminNotifications s1 \<and>
         tickets (updateTicket clk p s) = mockTickets s1 \<and>
         notifications (updateTicket clk p s) = mockNotifications s1 \<and>
         adminNotifications (updateTicket clk p s) = mockAdminNotifications s1"
  by (simp add: updateTicket_found [OF assms] addLog_def Let_def)

text \<open>
  Claim C3. For an \<^verbatim>\<open>updateTicket\<close> with a resolved acting user on the first ticket
  that carries the id: when the patch sets the status Escalated and the ticket was not
  Escalated, exactly one admin notification and one system notification of a manual
  escalation are added; otherwise, when the status after the patch is Completed or Closed
  and differs from the status before, exactly one system notification is added, whose text
  quotes the comment of the updated ticket, or the placeholder when that comment is
  absent (\<^verbatim>\<open>undefined\<close> or the empty string, which \<^verbatim>\<open>||\<close> treats alike); otherwise no
  notification is added. The code tests the two rules one after the other; the theorem shows
  that they never fire together.
\<close>

theorem updateTicket_notification_rules:
  assumes "actingUserId s = Some adminId"
    and "findIndex (\<lambda>t. t_id t = p_id p) (mockTickets s) = Some i"
    and "original = mockTickets s ! i"
    and "updated = applyPatch original p (clk 0)"
    and "s' = updateTicket clk p s"
  shows "(if p_status p = Some ESCALATED \<and> t_status original \<noteq> ESCALATED
          then (\<exists>an n.
                  mockAdminNotifications s' = an # mockAdminNotifications s \<and>
                  an_ticketId an = p_id p \<and> \<not> an_isRead an \<and>
                  an_message an = ''Ticket for UID '' @ t_uid original @
                                  '' has been escalated.'' \<and>
                  mockNotifications s' = n # mockNotifications s \<and>
                  n_ticketId n = p_id p \<and> n_preId n = t_preId updated \<and> \<not> n_isRead n \<and>
                  n_message n = ''Your ticket #'' @ idNumber (p_id p) @ '' for UID '' @
                                t_uid updated @ '' has been manually escalated.'')
          else if (t_status updated = COMPLETED \<or> t_status updated = CLOSED) \<and>
                  t_status updated \<noteq> t_status original
          then mockAdminNotifications s' = mockAdminNotifications s \<and>
               (\<exists>n. mockNotifications s' = n # mockNotifications s \<and>
                  n_ticketId n = p_id p \<and> n_preId n = t_preId updated \<and> \<not> n_isRead n \<and>
                  n_message n = ''Your ticket #'' @ idNumber (p_id p) @ '' for UID '' @
                                t_uid updated @ '' has been resolved. DataCR Comment: '' @
                                [CHR 0x22] @
                                (case t_comment updated of
                                   None \<Rightarrow> ''No comment provided.''
                                 | Some text \<Rightarrow>
                                     if text = [] then ''No comment provided.'' else text) @
                                [CHR 0x22])
          else mockAdminNotifications s' = mockAdminNotifications s \<and>
               mockNotifications s' = mockNotifications s) \<and>
         mockTickets s' = (mockTickets s)[i := updated] \<and>
         tickets s' = mockTickets s' \<and> notifications s' = mockNotifications s' \<and>
         adminNotifications s' = mockAdminNotifications s'"
proof -
  obtain s1 k where f: "updateFound clk p i s = (s1, k)"
    by (cases "updateFound clk p i s")
  note C = updateTicket_found_collections [OF assms(1,2) f]
  note N = updateFound_notifications [OF f]
  note P = updateFound_parts [OF f]
  show ?thesis
    using C N P assms(3-5)
    by (auto simp: escalatedAdminMessage_def escalatedMessage_def resolvedMessage_def
                   commentOrPlaceholder_def
             simp del: append.simps split: if_splits)
qed

theorem updateTicket_notification_rules_witness:
  "\<exists>n. mockNotifications (updateTicket exClock completePatch exTicketState) = [n] \<and>
        n_message n = ''Your ticket #150 for UID UID12345 has been resolved. DataCR Comment: '' @
                      [CHR 0x22] @ ''fixed'' @ [CHR 0x22] \<and>
        mockAdminNotifications (updateTicket exClock completePatch exTicketState) = []"
proof -
  have a: "actingUserId exTicketState = Some ''user-1''"
    by (simp add: actingUserId_def exTicketState_def exState_def exUser_def)
  have f: "findIndex (\<lambda>t. t_id t = p_id completePatch) (mockTickets exTicketState) = Some 0"
    by (simp add: exTicketState_def exTicket_def completePatch_def)
  have o: "exTicket = mockTickets exTicketState ! 0"
    by (simp add: exTicketState_def)
  have e: "mockNotifications exTicketState = []" "mockAdminNotifications exTicketState = []"
    by (simp_all add: exTicketState_def exState_def)
  have st: "t_status exTicket = IN_PROGRESS" "p_status completePatch = Some COMPLETED"
    "t_status (applyPatch exTicket completePatch (exClock 0)) = COMPLETED"
    "t_comment (applyPatch exTicket completePatch (exClock 0)) = Some ''fixed''"
    "t_uid (applyPatch exTicket completePatch (exClock 0)) = ''UID12345''"
    "p_id completePatch = ''ticket-150''"
    by (simp_all add: exTicket_def completePatch_def applyPatch_def)
  from updateTicket_notification_rules [OF a f o refl refl, of exClock]
  show ?thesis
    unfolding e st by (auto simp: idNumber_150)
qed

section \<open>Marking notifications as read\<close>

















section \<open>The order of the two timestamps\<close>

lemma timesOrdered_update:
  "timesOrdered ts \<Longrightarrow> t_createdAt t \<le> t_updatedAt t \<Longrightarrow> timesOrdered (ts[i := t])"
  by (auto simp: timesOrdered_def list_all_iff dest!: set_update_subset_insert [THEN subsetD])

lemma addTicket_ordered:
  assumes "ticketsOrdered s" "clk 1 \<le> clk 2" "addTicket clk d s = Inr s'"
  shows "ticketsOrdered s' \<and>
         (\<exists>t. mockTickets s' = t # mockTickets s \<and> t_createdAt t = clk 1 \<and>
              t_updatedAt t = clk 2)"
proof -
  from addTicket_success [OF assms(3)] obtain user where u: "sessionUser s = Some user"
    by blast
  from addTicket_tickets [OF assms(3) u] assms(1,2) show ?thesis
    by (auto simp: ticketsOrdered_def timesOrdered_def)
qed

lemma updateTicket_ordered:
  assumes "ticketsOrdered s"
    and "\<forall>t \<in> set (mockTickets s). t_id t = p_id p \<longrightarrow>
           (case p_createdAt p of None \<Rightarrow> t_createdAt t | Some c \<Rightarrow> c) \<le> clk 0"
  shows "ticketsOrdered (updateTicket clk p s)"
proof (cases "actingUserId s")
  case None
  with assms(1) show ?thesis by (simp add: updateTicket_unresolved)
next
  case (Some a)
  show ?thesis
  proof (cases "findIndex (\<lambda>t. t_id t = p_id p) (mockTickets s)")
    case None
    with assms(1) show ?thesis
      by (simp add: updateTicket_missing [OF Some None] addLog_def Let_def ticketsOrdered_def)
  next
    case (Some i)
    obtain s1 k where f: "updateFound clk p i s = (s1, k)"
      by (cases "updateFound clk p i s")
    from findIndex_SomeD [OF Some] have i: "i < length (mockTickets s)"
      "t_id (mockTickets s ! i) = p_id p" by auto
    then have "mockTickets s ! i \<in> set (mockTickets s)" by simp
    with assms(2) i(2)
    have "t_createdAt (applyPatch (mockTickets s ! i) p (clk 0)) \<le>
          t_updatedAt (applyPatch (mockTickets s ! i) p (clk 0))"
      by (auto simp: applyPatch_def split: option.splits)
    with assms(1) have "timesOrdered (mockTickets s1)"
      using updateFound_parts [OF f] by (simp add: timesOrdered_update ticketsOrdered_def)
    then show ?thesis
      using updateTicket_found_collections [OF \<open>actingUserId s = Some a\<close> Some f]
      by (simp add: ticketsOrdered_def)
  qed
qed

lemma timesOrdered_nth:
  "timesOrdered ts \<Longrightarrow> k < length ts \<Longrightarrow> t_createdAt (ts ! k) \<le> t_updatedAt (ts ! k)"
  by (simp add: timesOrdered_def list_all_length)

lemma updateTicket_found_tickets:
  assumes "actingUserId s = Some a"
    and "findIndex (\<lambda>t. t_id t = p_id p) (mockTickets s) = Some k"
  shows "mockTickets (updateTicket clk p s) =
           (mockTickets s)[k := applyPatch (mockTickets s ! k) p (clk 0)] \<and>
         tickets (updateTicket clk p s) = mockTickets (updateTicket clk p s)"
proof -
  obtain s1 n where f: "updateFound clk p k s = (s1, n)"
    by (cases "updateFound clk p k s")
  from updateTicket_found_collections [OF assms f] updateFound_parts [OF f]
  show ?thesis by simp
qed

lemma updateTicket_not_found_tickets:
  assumes "actingUserId s = None \<or> (\<forall>t \<in> set (mockTickets s). t_id t \<noteq> p_id p)"
  shows "mockTickets (updateTicket clk p s) = mockTickets s"
proof (cases "actingUserId s")
  case None
  then show ?thesis by (simp add: updateTicket_unresolved)
next
  case (Some a)
  with assms have "findIndex (\<lambda>t. t_id t = p_id p) (mockTickets s) = None"
    by (simp add: findIndex_eq_None)
  from updateTicket_missing [OF Some this] show ?thesis
    by (simp add: addLog_def Let_def)
qed

lemma updateTicket_ordered_iff:
  assumes "ticketsOrdered s" "actingUserId s = Some a"
    and "findIndex (\<lambda>t. t_id t = p_id p) (mockTickets s) = Some k"
  shows "ticketsOrdered (updateTicket clk p s) =
           ((case p_createdAt p of None \<Rightarrow> t_createdAt (mockTickets s ! k) | Some c \<Rightarrow> c)
              \<le> clk 0)"
proof -
  let ?u = "applyPatch (mockTickets s ! k) p (clk 0)"
  from findIndex_SomeD [OF assms(3)] have k: "k < length (mockTickets s)" by simp
  note T = updateTicket_found_tickets [OF assms(2,3), of clk]
  have u: "t_updatedAt ?u = clk 0"
    "t_createdAt ?u = (case p_createdAt p of None \<Rightarrow> t_createdAt (mockTickets s ! k)
                                         | Some c \<Rightarrow> c)"
    by (simp_all add: applyPatch_def)
  show ?thesis
  proof
    assume "ticketsOrdered (updateTicket clk p s)"
    then have "timesOrdered ((mockTickets s)[k := ?u])"
      using T by (simp add: ticketsOrdered_def)
    from timesOrdered_nth [OF this, of k] k u
    show "(case p_createdAt p of None \<Rightarrow> t_createdAt (mockTickets s ! k) | Some c \<Rightarrow> c)
              \<le> clk 0"
      by simp
  next
    assume "(case p_createdAt p of None \<Rightarrow> t_createdAt (mockTickets s ! k) | Some c \<Rightarrow> c)
              \<le> clk 0"
    with u have "t_createdAt ?u \<le> t_updatedAt ?u" by simp
    with assms(1) have "timesOrdered ((mockTickets s)[k := ?u])"
      by (simp add: timesOrdered_update ticketsOrdered_def)
    with T show "ticketsOrdered (updateTicket clk p s)"
      by (simp add: ticketsOrdered_def)
  qed
qed

lemma addTicket_ordered_iff:
  assumes "ticketsOrdered s" "addTicket clk d s = Inr s'"
  shows "ticketsOrdered s' = (clk 1 \<le> clk 2)"
proof -
  from addTicket_success [OF assms(2)] obtain user where u: "sessionUser s = Some user"
    by blast
  from addTicket_tickets [OF assms(2) u] assms(1) show ?thesis
    by (auto simp: ticketsOrdered_def timesOrdered_def)
qed

lemma addTicket_stamps:
  assumes "addTicket clk d s = Inr s'"
  shows "\<exists>t. mockTickets s' = t # mockTickets s \<and> tickets s' = mockTickets s' \<and>
             t_createdAt t = clk 1 \<and> t_updatedAt t = clk 2"
proof -
  from addTicket_success [OF assms] obtain user where u: "sessionUser s = Some user"
    by blast
  from addTicket_tickets [OF assms u] show ?thesis by auto
qed

text \<open>
  Claim C10, as amended. \<^verbatim>\<open>addTicket\<close> stamps \<^verbatim>\<open>createdAt\<close> and \<^verbatim>\<open>updatedAt\<close> of
  the new ticket with two successive readings of the clock, and the stored tickets stay in
  order exactly when the second reading is not earlier than the first. \<^verbatim>\<open>updateTicket\<close>
  replaces the first ticket that carries the id by its patched copy, whose
  \<^verbatim>\<open>updatedAt\<close> is the update instant and whose \<^verbatim>\<open>createdAt\<close> is the one the patch
  carries, or else its own; the stored tickets stay in order exactly when the update instant
  is not earlier than that \<^verbatim>\<open>createdAt\<close>. Without a resolved user or a ticket of that id
  \<^verbatim>\<open>updateTicket\<close> changes no ticket. Marking a notification read leaves the tickets,
  backing and published, as they are.
\<close>

theorem timestamps_ordered_preserved:
  "(addTicket clk d s = Inr s' \<longrightarrow>
      (\<exists>t. mockTickets s' = t # mockTickets s \<and> tickets s' = mockTickets s' \<and>
           t_createdAt t = clk 1 \<and> t_updatedAt t = clk 2) \<and>
      (ticketsOrdered s \<longrightarrow> ticketsOrdered s' = (clk 1 \<le> clk 2))) \<and>
   (\<forall>a k. actingUserId s = Some a \<and>
          findIndex (\<lambda>t. t_id t = p_id p) (mockTickets s) = Some k \<longrightarrow>
      mockTickets (updateTicket clk p s) =
        (mockTickets s)[k := applyPatch (mockTickets s ! k) p (clk 0)] \<and>
      tickets (updateTicket clk p s) = mockTickets (updateTicket clk p s) \<and>
      t_updatedAt (applyPatch (mockTickets s ! k) p (clk 0)) = clk 0 \<and>
      t_createdAt (applyPatch (mockTickets s ! k) p (clk 0)) =
        (case p_createdAt p of None \<Rightarrow> t_createdAt (mockTickets s ! k) | Some c \<Rightarrow> c) \<and>
      (ticketsOrdered s \<longrightarrow>
         ticketsOrdered (updateTicket clk p s) =
           ((case p_createdAt p of None \<Rightarrow> t_createdAt (mockTickets s ! k) | Some c \<Rightarrow> c)
              \<le> clk 0))) \<and>
   (actingUserId s = None \<or> (\<forall>t \<in> set (mockTickets s). t_id t \<noteq> p_id p) \<longrightarrow>
      mockTickets (updateTicket clk p s) = mockTickets s \<and>
      (ticketsOrdered s \<longrightarrow> ticketsOrdered (updateTicket clk p s))) \<and>
   (ticketsOrdered s \<and>
    (\<forall>t \<in> set (mockTickets s). t_id t = p_id p \<longrightarrow>
       (case p_createdAt p of None \<Rightarrow> t_createdAt t | Some c \<Rightarrow> c) \<le> clk 0) \<longrightarrow>
      ticketsOrdered (updateTicket clk p s)) \<and>
   mockTickets (markSystemNotificationAsRead i s) = mockTickets s \<and>
   tickets (markSystemNotificationAsRead i s) = tickets s \<and>
   mockTickets (markAdminNotificationAsRead i s) = mockTickets s \<and>
   tickets (markAdminNotificationAsRead i s) = tickets s \<and>
   (ticketsOrdered s \<longrightarrow>
      ticketsOrdered (markSystemNotificationAsRead i s) \<and>
      ticketsOrdered (markAdminNotificationAsRead i s))"
proof (intro conjI impI allI)
  assume a: "addTicket clk d s = Inr s'"
  then show "\<exists>t. mockTickets s' = t # mockTickets s \<and> tickets s' = mockTickets s' \<and>
           t_createdAt t = clk 1 \<and> t_updatedAt t = clk 2"
    by (rule addTicket_stamps)
  assume "ticketsOrdered s"
  then show "ticketsOrdered s' = (clk 1 \<le> clk 2)" using a by (rule addTicket_ordered_iff)
next
  fix a k
  assume h: "actingUserId s = Some a \<and>
          findIndex (\<lambda>t. t_id t = p_id p) (mockTickets s) = Some k"
  then have h1: "actingUserId s = Some a"
    and h2: "findIndex (\<lambda>t. t_id t = p_id p) (mockTickets s) = Some k" by simp_all
  from updateTicket_found_tickets [OF h1 h2, of clk]
  show "mockTickets (updateTicket clk p s) =
        (mockTickets s)[k := applyPatch (mockTickets s ! k) p (clk 0)]"
    and "tickets (updateTicket clk p s) = mockTickets (updateTicket clk p s)"
    by simp_all
  show "t_updatedAt (applyPatch (mockTickets s ! k) p (clk 0)) = clk 0"
    by (simp add: applyPatch_def)
  show "t_createdAt (applyPatch (mockTickets s ! k) p (clk 0)) =
        (case p_createdAt p of None \<Rightarrow> t_createdAt (mockTickets s ! k) | Some c \<Rightarrow> c)"
    by (simp add: applyPatch_def)
  assume "ticketsOrdered s"
  then show "ticketsOrdered (updateTicket clk p s) =
           ((case p_createdAt p of None \<Rightarrow> t_createdAt (mockTickets s ! k) | Some c \<Rightarrow> c)
              \<le> clk 0)"
    using h1 h2 by (rule updateTicket_ordered_iff)
next
  assume n: "actingUserId s = None \<or> (\<forall>t \<in> set (mockTickets s). t_id t \<noteq> p_id p)"
  then show "mockTickets (updateTicket clk p s) = mockTickets s"
    by (rule updateTicket_not_found_tickets)
  assume o: "ticketsOrdered s"
  show "ticketsOrdered (updateTicket clk p s)"
  proof (cases "actingUserId s")
    case None
    with o show ?thesis by (simp add: updateTicket_unresolved)
  next
    case (Some a)
    with n have "\<forall>t \<in> set (mockTickets s). t_id t \<noteq> p_id p" by simp
    then have "\<forall>t \<in> set (mockTickets s). t_id t = p_id p \<longrightarrow>
       (case p_createdAt p of None \<Rightarrow> t_createdAt t | Some c \<Rightarrow> c) \<le> clk 0" by simp
    with o show ?thesis by (rule updateTicket_ordered)
  qed
next
  assume "ticketsOrdered s \<and>
    (\<forall>t \<in> set (mockTickets s). t_id t = p_id p \<longrightarrow>
       (case p_createdAt p of None \<Rightarrow> t_createdAt t | Some c \<Rightarrow> c) \<le> clk 0)"
  then show "ticketsOrdered (updateTicket clk p s)"
    using updateTicket_ordered [of s p clk] by blast
next
  show "mockTickets (markSystemNotificationAsRead i s) = mockTickets s"
    "tickets (markSystemNotificationAsRead i s) = tickets s"
    by (simp_all add: markSystemNotificationAsRead_def Let_def)
  show "mockTickets (markAdminNotificationAsRead i s) = mockTickets s"
    "tickets (markAdminNotificationAsRead i s) = tickets s"
    by (simp_all add: markAdminNotificationAsRead_def Let_def)
next
  assume "ticketsOrdered s"
  then show "ticketsOrdered (markSystemNotificationAsRead i s)"
    by (simp add: ticketsOrdered_def markSystemNotificationAsRead_def Let_def)
next
  assume "ticketsOrdered s"
  then show "ticketsOrdered (markAdminNotificationAsRead i s)"
    by (simp add: ticketsOrdered_def markAdminNotificationAsRead_def Let_def)
qed

text \<open>
  Claim C10 as stated fails in three ways. A patch that carries a \<^verbatim>\<open>createdAt\<close> later
  than the update instant leaves the ticket updated before it was created. A clock that
  ticks between the two readings of \<^verbatim>\<open>addTicket\<close> gives the new ticket two different
  instants. A clock that is set back between them gives it an \<^verbatim>\<open>updatedAt\<close> before its
  \<^verbatim>\<open>createdAt\<close>.
\<close>

theorem updateTicket_createdAt_counterexample:
  "ticketsOrdered exTicketState \<and>
   t_createdAt exTicket = 1690000000000 \<and> exClock 0 = 1700000000000 \<and>
   map t_createdAt (mockTickets (updateTicket exClock futurePatch exTicketState)) =
     [1800000000000] \<and>
   map t_updatedAt (mockTickets (updateTicket exClock futurePatch exTicketState)) =
     [1700000000000] \<and>
   \<not> ticketsOrdered (updateTicket exClock futurePatch exTicketState) \<and>
   map t_createdAt (storedTickets (addTicket exClock exDraft exState)) = [1700000000001] \<and>
   map t_updatedAt (storedTickets (addTicket exClock exDraft exState)) = [1700000000002] \<and>
   backwardClock 1 = 1700000000009 \<and> backwardClock 2 = 1700000000008 \<and>
   map t_createdAt (storedTickets (addTicket backwardClock exDraft exState)) =
     [1700000000009] \<and>
   map t_updatedAt (storedTickets (addTicket backwardClock exDraft exState)) =
     [1700000000008]"
proof -
  have 1: "ticketsOrdered exTicketState \<and>
   t_createdAt exTicket = 1690000000000 \<and> exClock 0 = 1700000000000 \<and>
   map t_createdAt (mockTickets (updateTicket exClock futurePatch exTicketState)) =
     [1800000000000] \<and>
   map t_updatedAt (mockTickets (updateTicket exClock futurePatch exTicketState)) =
     [1700000000000] \<and>
   \<not> ticketsOrdered (updateTicket exClock futurePatch exTicketState)"
    by (simp add: ticketsOrdered_def timesOrdered_def exTicketState_def exState_def
                exTicket_def exUser_def exClock_def futurePatch_def updateTicket_def
                actingUserId_def updateFound_def applyPatch_def addLog_def Let_def)
  have 2: "map t_createdAt (storedTickets (addTicket exClock exDraft exState)) =
             [1700000000001] \<and>
           map t_updatedAt (storedTickets (addTicket exClock exDraft exState)) =
             [1700000000002] \<and>
           backwardClock 1 = 1700000000009 \<and> backwardClock 2 = 1700000000008 \<and>
           map t_createdAt (storedTickets (addTicket backwardClock exDraft exState)) =
             [1700000000009] \<and>
           map t_updatedAt (storedTickets (addTicket backwardClock exDraft exState)) =
             [1700000000008]"
    by (simp add: exState_def exUser_def exClock_def backwardClock_def storedTickets_def
                  addTicket_def resolvedTeam_def addLog_def Let_def)
  from 1 2 show ?thesis by blast
qed

theorem timestamps_ordered_preserved_witness:
  "(\<exists>s' t. addTicket exClock exDraft exTicketState = Inr s' \<and> ticketsOrdered s' \<and>
            mockTickets s' = [t, exTicket] \<and> t_createdAt t = 1700000000001 \<and>
            t_updatedAt t = 1700000000002) \<and>
   map t_updatedAt (mockTickets (updateTicket exClock completePatch exTicketState)) =
     [1700000000000] \<and>
   ticketsOrdered (updateTicket exClock completePatch exTicketState) \<and>
   mockTickets (updateTicket exClock patch404 exTicketState) = [exTicket] \<and>
   ticketsOrdered (updateTicket exClock patch404 exTicketState) \<and>
   mockTickets (markSystemNotificationAsRead ''notif-0'' exTicketState) = [exTicket] \<and>
   ticketsOrdered (markSystemNotificationAsRead ''notif-0'' exTicketState) \<and>
   ticketsOrdered (markAdminNotificationAsRead ''notif-0'' exTicketState)"
proof -
  have o: "ticketsOrdered exTicketState"
    by (simp add: ticketsOrdered_def timesOrdered_def exTicketState_def exTicket_def)
  have m: "mockTickets exTicketState = [exTicket]" by (simp add: exTicketState_def)
  have "\<exists>s'. addTicket exClock exDraft exTicketState = Inr s'"
    by (simp add: addTicket_def exTicketState_def exState_def exUser_def resolvedTeam_def
                  Let_def)
  then obtain s' where h: "addTicket exClock exDraft exTicketState = Inr s'" ..
  have a: "actingUserId exTicketState = Some ''user-1''"
    by (simp add: actingUserId_def exTicketState_def exState_def exUser_def)
  have f: "findIndex (\<lambda>t. t_id t = p_id completePatch) (mockTickets exTicketState) = Some 0"
    by (simp add: exTicketState_def exTicket_def completePatch_def)
  have n: "actingUserId exTicketState = None \<or>
           (\<forall>t \<in> set (mockTickets exTicketState). t_id t \<noteq> p_id patch404)"
    by (simp add: exTicketState_def exTicket_def patch404_def)
  have c: "(case p_createdAt completePatch of
              None \<Rightarrow> t_createdAt (mockTickets exTicketState ! 0) | Some c \<Rightarrow> c) \<le> exClock 0"
    by (simp add: completePatch_def exTicketState_def exTicket_def exClock_def)
  note A = timestamps_ordered_preserved
             [of exClock exDraft exTicketState s' completePatch "''notif-0''"]
  note B = timestamps_ordered_preserved
             [of exClock exDraft exTicketState s' patch404 "''notif-0''"]
  from A h o have 1: "\<exists>t. mockTickets s' = [t, exTicket] \<and> ticketsOrdered s' \<and>
      t_createdAt t = 1700000000001 \<and> t_updatedAt t = 1700000000002"
    by (auto simp: m exClock_def)
  from A a f have "mockTickets (updateTicket exClock completePatch exTicketState) =
        (mockTickets exTicketState)
          [0 := applyPatch (mockTickets exTicketState ! 0) completePatch (exClock 0)]"
    by blast
  then have 2: "map t_updatedAt (mockTickets (updateTicket exClock completePatch exTicketState))
                  = [1700000000000]"
    by (simp add: m applyPatch_def exClock_def)
  from A a f o c have 3: "ticketsOrdered (updateTicket exClock completePatch exTicketState)"
    by blast
  from B n o have 4: "mockTickets (updateTicket exClock patch404 exTicketState) = [exTicket] \<and>
      ticketsOrdered (updateTicket exClock patch404 exTicketState)"
    unfolding m [symmetric] by blast
  from A o have 5: "mockTickets (markSystemNotificationAsRead ''notif-0'' exTicketState) =
      [exTicket] \<and>
      ticketsOrdered (markSystemNotificationAsRead ''notif-0'' exTicketState) \<and>
      ticketsOrdered (markAdminNotificationAsRead ''notif-0'' exTicketState)"
    unfolding m [symmetric] by blast
  from h 1 2 3 4 5 show ?thesis by blast
qed

section \<open>The hierarchy of reports\<close>

lemma visitAll_spec:
  "\<exists>new. visitAll ds (V, S, Q) = (V \<union> set new, S @ new, Q @ new) \<and> distinct new \<and>
         set new \<inter> V = {} \<and> V \<union> set new = V \<union> u_id ` set ds"
proof (induction ds arbitrary: V S Q)
  case Nil
  show ?case by (rule exI [of _ "[]"]) simp
next
  case (Cons d ds)
  show ?case
  proof (cases "u_id d \<in> V")
    case True
    from Cons.IH [of V S Q] obtain new where
      n: "visitAll ds (V, S, Q) = (V \<union> set new, S @ new, Q @ new)" "distinct new"
         "set new \<inter> V = {}" "V \<union> set new = V \<union> u_id ` set ds"
      by blast
    show ?thesis
      by (rule exI [of _ new]) (use True n in auto)
  next
    case False
    from Cons.IH [of "insert (u_id d) V" "S @ [u_id d]" "Q @ [u_id d]"] obtain new where
      n: "visitAll ds (insert (u_id d) V, S @ [u_id d], Q @ [u_id d]) =
            (insert (u_id d) V \<union> set new, (S @ [u_id d]) @ new, (Q @ [u_id d]) @ new)"
         "distinct new" "set new \<inter> insert (u_id d) V = {}"
         "insert (u_id d) V \<union> set new = insert (u_id d) V \<union> u_id ` set ds"
      by blast
    show ?thesis
      by (rule exI [of _ "u_id d # new"]) (use False n in auto)
  qed
qed

lemma direct_reports:
  "u_id ` set (filter (\<lambda>u. u_managerId u = Some c) us) = reportsTo us `` {c}"
  by (auto simp: reportsTo_def)

lemma reportsTo_range: "(a, b) \<in> reportsTo us \<Longrightarrow> b \<in> u_id ` set us"
  by (auto simp: reportsTo_def)

lemma reachable_ids: "(reportsTo us)\<^sup>* `` {m} \<subseteq> insert m (u_id ` set us)"
proof
  fix x assume "x \<in> (reportsTo us)\<^sup>* `` {m}"
  then have "(m, x) \<in> (reportsTo us)\<^sup>*" by simp
  then show "x \<in> insert m (u_id ` set us)"
    by (cases rule: rtranclE) (auto dest: reportsTo_range)
qed

lemma closed_reachable:
  assumes "m \<in> A" "\<forall>x \<in> A. R `` {x} \<subseteq> A"
  shows "R\<^sup>* `` {m} \<subseteq> A"
proof
  fix y assume "y \<in> R\<^sup>* `` {m}"
  then have "(m, y) \<in> R\<^sup>*" by simp
  then show "y \<in> A"
    by (induction rule: rtrancl_induct) (use assms in auto)
qed

lemma loopInv_iff:
  "loopInv m us h (V, S, Q) =
     (Q = m # S \<and> V = set Q \<and> distinct Q \<and> h \<le> length Q \<and>
      set Q \<subseteq> (reportsTo us)\<^sup>* `` {m} \<and>
      (\<forall>j < h. reportsTo us `` {Q ! j} \<subseteq> set Q))"
  by (simp add: loopInv_def)

lemma loopInv_length:
  assumes "loopInv m us h (V, S, Q)"
  shows "length Q \<le> Suc (length us)"
proof -
  from assms [unfolded loopInv_iff]
  have d: "distinct Q" and s: "set Q \<subseteq> (reportsTo us)\<^sup>* `` {m}"
    by blast+
  from s reachable_ids have "set Q \<subseteq> insert m (u_id ` set us)" by blast
  then have "card (set Q) \<le> card (insert m (u_id ` set us))"
    by (intro card_mono) auto
  also have "\<dots> \<le> Suc (card (u_id ` set us))" by (simp add: card_insert_if)
  also have "\<dots> \<le> Suc (length us)"
    using card_image_le [of "set us" u_id] card_length [of us] by simp
  finally show ?thesis using d by (simp add: distinct_card)
qed

lemma loopInv_step:
  assumes I: "loopInv m us h (V, S, Q)" and h: "h < length Q"
  shows "loopInv m us (Suc h)
           (visitAll (filter (\<lambda>u. u_managerId u = Some (Q ! h)) us) (V, S, Q))"
proof -
  let ?R = "reportsTo us"
  from visitAll_spec [of "filter (\<lambda>u. u_managerId u = Some (Q ! h)) us" V S Q]
  obtain new where
    n: "visitAll (filter (\<lambda>u. u_managerId u = Some (Q ! h)) us) (V, S, Q) =
          (V \<union> set new, S @ new, Q @ new)"
       "distinct new" "set new \<inter> V = {}" "V \<union> set new = V \<union> ?R `` {Q ! h}"
    unfolding direct_reports by blast
  from I [unfolded loopInv_iff] have i: "Q = m # S" "V = set Q" "distinct Q"
      "set Q \<subseteq> ?R\<^sup>* `` {m}" "\<forall>j < h. ?R `` {Q ! j} \<subseteq> set Q"
    by blast+
  from h have c: "Q ! h \<in> set Q" by simp
  with i(4) have r: "(m, Q ! h) \<in> ?R\<^sup>*" by auto
  have sub: "set new \<subseteq> ?R\<^sup>* `` {m}"
  proof
    fix x assume "x \<in> set new"
    with n(3,4) have "x \<in> ?R `` {Q ! h}" by blast
    then have "(Q ! h, x) \<in> ?R" by simp
    with r show "x \<in> ?R\<^sup>* `` {m}" by (auto intro: rtrancl_into_rtrancl)
  qed
  have closed: "\<forall>j < Suc h. ?R `` {(Q @ new) ! j} \<subseteq> set (Q @ new)"
  proof (intro allI impI)
    fix j assume j: "j < Suc h"
    show "?R `` {(Q @ new) ! j} \<subseteq> set (Q @ new)"
    proof (cases "j = h")
      case True
      with h have "(Q @ new) ! j = Q ! h" by (simp add: nth_append)
      with n(4) i(2) show ?thesis by auto
    next
      case False
      with j have jh: "j < h" by simp
      with h have "(Q @ new) ! j = Q ! j" by (simp add: nth_append)
      with i(5) jh show ?thesis by auto
    qed
  qed
  have "Q @ new = m # (S @ new)" using i(1) by simp
  moreover have "V \<union> set new = set (Q @ new)" using i(2) by simp
  moreover have "distinct (Q @ new)" using i(2,3) n(2,3) by auto
  moreover have "Suc h \<le> length (Q @ new)" using h by simp
  moreover have "set (Q @ new) \<subseteq> ?R\<^sup>* `` {m}" using i(4) sub by simp
  ultimately show ?thesis
    unfolding n(1) loopInv_iff using closed by blast
qed

lemma subordinateLoop_correct:
  assumes "loopInv m us h (V, S, Q)"
  shows "\<exists>r. subordinateLoop us h (V, S, Q) = Some r \<and> distinct r \<and>
             set r = (reportsTo us)\<^sup>* `` {m} - {m}"
  using assms
proof (induction "Suc (length us) - h" arbitrary: h V S Q rule: less_induct)
  case less
  note I = less.prems
  show ?case
  proof (cases "h < length Q")
    case True
    obtain V' S' Q' where v:
      "visitAll (filter (\<lambda>u. u_managerId u = Some (Q ! h)) us) (V, S, Q) = (V', S', Q')"
      by (cases "visitAll (filter (\<lambda>u. u_managerId u = Some (Q ! h)) us) (V, S, Q)")
    from loopInv_step [OF I True] v have I': "loopInv m us (Suc h) (V', S', Q')" by simp
    from loopInv_length [OF I] True have "Suc (length us) - Suc h < Suc (length us) - h"
      by simp
    from less.hyps [OF this I'] obtain r where
      r: "subordinateLoop us (Suc h) (V', S', Q') = Some r" "distinct r"
         "set r = (reportsTo us)\<^sup>* `` {m} - {m}"
      by blast
    have "subordinateLoop us h (V, S, Q) = subordinateLoop us (Suc h) (V', S', Q')"
      by (subst subordinateLoop.simps) (simp add: True v)
    with r show ?thesis by simp
  next
    case False
    from I [unfolded loopInv_iff] have i: "Q = m # S" "distinct Q" "h \<le> length Q"
        "set Q \<subseteq> (reportsTo us)\<^sup>* `` {m}" "\<forall>j < h. reportsTo us `` {Q ! j} \<subseteq> set Q"
      by blast+
    from False i(3) have "h = length Q" by simp
    have cl: "\<forall>x \<in> set Q. reportsTo us `` {x} \<subseteq> set Q"
    proof
      fix x assume "x \<in> set Q"
      then obtain j where "j < length Q" "Q ! j = x" by (auto simp: in_set_conv_nth)
      with i(5) \<open>h = length Q\<close> show "reportsTo us `` {x} \<subseteq> set Q" by blast
    qed
    from i(1) have "m \<in> set Q" by simp
    then have "(reportsTo us)\<^sup>* `` {m} \<subseteq> set Q" using cl by (rule closed_reachable)
    with i(4) have "set Q = (reportsTo us)\<^sup>* `` {m}" by blast
    with i(1,2) have "set S = (reportsTo us)\<^sup>* `` {m} - {m}" "distinct S" by auto
    moreover have "subordinateLoop us h (V, S, Q) = Some S"
      by (subst subordinateLoop.simps) (simp add: False)
    ultimately show ?thesis by simp
  qed
qed

lemma loopInv_init: "loopInv m us 0 ({m}, [], [m])"
  by (simp add: loopInv_def)

lemma getSubordinateIds_correct:
  "\<exists>r. getSubordinateIds m us = Some r \<and> distinct r \<and>
       set r = (reportsTo us)\<^sup>* `` {m} - {m}"
  unfolding getSubordinateIds_def by (rule subordinateLoop_correct [OF loopInv_init])

lemma reachable_proper: "R\<^sup>* `` {m} - {m} = R\<^sup>+ `` {m} - {m}"
  by (auto simp: rtrancl_eq_or_trancl)

text \<open>
  Claim C8. \<^verbatim>\<open>getSubordinateIds\<close> returns for every manager id and every list of users,
  whether or not the manager references form a cycle: the loop is modelled as a partial
  function, and it has a result on every input. The \<^verbatim>\<open>visited\<close> set keeps the queue
  free of repetitions, so the queue never holds more than the manager and one entry
  per user.
\<close>

theorem getSubordinateIds_terminates: "\<exists>r. getSubordinateIds managerId allUsers = Some r"
  using getSubordinateIds_correct [of managerId allUsers] by blast

text \<open>
  Claim C7, as amended. \<^verbatim>\<open>getSubordinateIds\<close> returns, each once, exactly the ids of the
  users that are reached from the manager id along one or more manager references, whatever
  their role, without the manager id itself. A manager id that no user names as its
  manager gives the empty list; there is no error.
\<close>

theorem getSubordinateIds_reports:
  "\<exists>r. getSubordinateIds managerId allUsers = Some r \<and> distinct r \<and>
       set r = (reportsTo allUsers)\<^sup>+ `` {managerId} - {managerId} \<and>
       ((\<forall>u \<in> set allUsers. u_managerId u \<noteq> Some managerId) \<longrightarrow> r = [])"
proof -
  from getSubordinateIds_correct [of managerId allUsers] obtain r where
    r: "getSubordinateIds managerId allUsers = Some r" "distinct r"
       "set r = (reportsTo allUsers)\<^sup>+ `` {managerId} - {managerId}"
    unfolding reachable_proper by blast
  have "r = []" if n: "\<forall>u \<in> set allUsers. u_managerId u \<noteq> Some managerId"
  proof -
    from n have "reportsTo allUsers `` {managerId} = {}" by (auto simp: reportsTo_def)
    then have "(reportsTo allUsers)\<^sup>+ `` {managerId} = {}"
      by (auto elim: converse_tranclE)
    with r(3) show ?thesis by simp
  qed
  with r show ?thesis by blast
qed

lemma getSubordinateIds_hierarchy_example: "getSubordinateIds ''user-asm-1'' exUsers = Some [''user-bdm-1'', ''user-1'', ''user-3'']"
  by (simp add: getSubordinateIds_def exUsers_def mkUser_def subordinateLoop.simps)

lemma getSubordinateIds_cycle_example: "getSubordinateIds ''user-a'' cyclicUsers = Some [''user-b'', ''user-c'']"
  by (simp add: getSubordinateIds_def cyclicUsers_def mkUser_def subordinateLoop.simps)

text \<open>
  Claim C7 as stated fails for the empty manager id when a user's \<^verbatim>\<open>managerId\<close> is the
  empty string: the result holds that user. The same happens for the id of no user that a
  \<^verbatim>\<open>managerId\<close> still names.
\<close>

theorem getSubordinateIds_empty_counterexample:
  "map u_managerId unassignedUsers = [Some []] \<and>
   getSubordinateIds [] unassignedUsers = Some [''user-9'']"
  by (simp add: getSubordinateIds_def unassignedUsers_def mkUser_def subordinateLoop.simps)

theorem getSubordinateIds_reports_witness:
  "getSubordinateIds ''user-1'' exUsers = Some [] \<and>
   getSubordinateIds ''user-404'' exUsers = Some []"
proof -
  have a: "\<forall>u \<in> set exUsers. u_managerId u \<noteq> Some ''user-1''"
    and b: "\<forall>u \<in> set exUsers. u_managerId u \<noteq> Some ''user-404''"
    by (simp_all add: exUsers_def mkUser_def)
  from getSubordinateIds_reports [of "''user-1''" exUsers] a
  have 1: "getSubordinateIds ''user-1'' exUsers = Some []" by blast
  from getSubordinateIds_reports [of "''user-404''" exUsers] b
  have 2: "getSubordinateIds ''user-404'' exUsers = Some []" by blast
  from 1 2 show ?thesis ..
qed

section \<open>Facts about rounding to a double\<close>

lemma ilog2_bounds:
  "1 \<le> n \<Longrightarrow> 0 \<le> ilog2 n \<and> 2 ^ nat (ilog2 n) \<le> n \<and> n < 2 * 2 ^ nat (ilog2 n)"
proof (induction n rule: ilog2.induct)
  case (1 n)
  show ?case
  proof (cases "n < 2")
    case True
    with "1.prems" show ?thesis by (simp add: ilog2.simps)
  next
    case False
    then have h: "1 \<le> n div 2" by simp
    from "1.IH" [OF False h] have
      ih: "0 \<le> ilog2 (n div 2)" "2 ^ nat (ilog2 (n div 2)) \<le> n div 2"
          "n div 2 < 2 * 2 ^ nat (ilog2 (n div 2))"
      by auto
    have e: "ilog2 n = 1 + ilog2 (n div 2)" using False by (simp add: ilog2.simps)
    have p: "(2::int) ^ nat (1 + ilog2 (n div 2)) = 2 * 2 ^ nat (ilog2 (n div 2))"
      using ih(1) by (simp add: nat_add_distrib)
    from ih show ?thesis unfolding e p by auto
  qed
qed

lemma ilog2_powi:
  assumes "1 \<le> n"
  shows "(2::rat) powi ilog2 n \<le> of_int n" "(of_int n :: rat) < 2 * 2 powi ilog2 n"
proof -
  from ilog2_bounds [OF assms] have b: "0 \<le> ilog2 n" "2 ^ nat (ilog2 n) \<le> n"
    "n < 2 * 2 ^ nat (ilog2 n)" by auto
  have p: "(2::rat) powi ilog2 n = 2 ^ nat (ilog2 n)"
    using b(1) by (simp add: power_int_def)
  have "(of_int (2 ^ nat (ilog2 n)) :: rat) \<le> of_int n"
    using b(2) by (simp only: of_int_le_iff)
  then show "(2::rat) powi ilog2 n \<le> of_int n" by (simp add: p)
  have "(of_int n :: rat) < of_int (2 * 2 ^ nat (ilog2 n))"
    using b(3) by (simp only: of_int_less_iff)
  then show "(of_int n :: rat) < 2 * 2 powi ilog2 n" by (simp add: p)
qed

lemma exponentOf_bounds:
  assumes "0 < y"
  shows "2 powi exponentOf y \<le> y" "y < 2 * 2 powi exponentOf y"
proof -
  obtain a b where q: "quotient_of y = (a, b)" by (cases "quotient_of y")
  then have b: "0 < b" and y: "y = of_int a / of_int b"
    by (auto simp: quotient_of_denom_pos quotient_of_div)
  from assms y b have a: "0 < a" by (simp add: zero_less_divide_iff)
  let ?d = "ilog2 a - ilog2 b"
  have pa: "(2::rat) powi ilog2 a \<le> of_int a" "(of_int a :: rat) < 2 * 2 powi ilog2 a"
    using ilog2_powi [of a] a by auto
  have pb: "(2::rat) powi ilog2 b \<le> of_int b" "(of_int b :: rat) < 2 * 2 powi ilog2 b"
    using ilog2_powi [of b] b by auto
  have pos: "(0::rat) < 2 powi ilog2 a" "(0::rat) < 2 powi ilog2 b" "(0::rat) < of_int b"
    "(0::rat) < of_int a"
    using a b by simp_all
  have d: "(2::rat) powi ?d = 2 powi ilog2 a / 2 powi ilog2 b"
    by (simp add: power_int_diff)
  have d1: "(2::rat) powi (?d - 1) = 2 powi ilog2 a / (2 * 2 powi ilog2 b)"
    by (simp add: power_int_diff)
  have up: "y < 2 * 2 powi ?d"
  proof -
    have "y * of_int b = of_int a" using y pos by simp
    also have "\<dots> < 2 * 2 powi ilog2 a" by (rule pa(2))
    also have "\<dots> = (2 * 2 powi ?d) * 2 powi ilog2 b" using pos by (simp add: d)
    also have "\<dots> \<le> (2 * 2 powi ?d) * of_int b"
      using pb(1) by (intro mult_left_mono) simp_all
    finally show ?thesis using pos by simp
  qed
  have low: "2 powi (?d - 1) \<le> y"
  proof -
    have "(2::rat) powi (?d - 1) * of_int b \<le> 2 powi (?d - 1) * (2 * 2 powi ilog2 b)"
      using pb(2) by (intro mult_left_mono) simp_all
    also have "\<dots> = 2 powi ilog2 a" using pos by (simp add: d1)
    also have "\<dots> \<le> of_int a" by (rule pa(1))
    also have "\<dots> = y * of_int b" using y pos by simp
    finally show ?thesis using pos by simp
  qed
  have dd: "(2::rat) * 2 powi (?d - 1) = 2 powi ?d"
    by (simp add: power_int_diff)
  show "2 powi exponentOf y \<le> y"
    using low by (simp add: exponentOf_def q Let_def)
  show "y < 2 * 2 powi exponentOf y"
    using up dd by (auto simp: exponentOf_def q Let_def not_le)
qed

lemma roundEven_error: "\<bar>of_int (roundEven y) - y\<bar> \<le> 1 / 2"
proof -
  have "of_int \<lfloor>y\<rfloor> \<le> y" "y < of_int \<lfloor>y\<rfloor> + 1" by linarith+
  then show ?thesis
    by (auto simp: roundEven_def Let_def abs_le_iff)
qed

lemma roundEven_of_int: "roundEven (of_int z) = z"
  by (simp add: roundEven_def)

lemma binary64_error:
  "\<bar>binary64 q - q\<bar> \<le> \<bar>q\<bar> / 2 ^ 53"
proof (cases "q = 0")
  case True
  then show ?thesis by (simp add: binary64_def)
next
  case False
  let ?y = "\<bar>q\<bar>"
  let ?E = "exponentOf ?y"
  let ?p = "(2::rat) powi (?E - 52)"
  let ?m = "roundEven (?y / ?p)"
  from False have y: "0 < ?y" by simp
  have p: "0 < ?p" by simp
  have b: "binary64 q = sgn q * of_int ?m * ?p"
    using False by (simp add: binary64_def Let_def)
  have pe: "?p = 2 powi ?E / 2 ^ 52" by (simp add: power_int_diff)
  have qs: "sgn q * ?y = q" by (rule sgn_mult_abs)
  have "sgn q * (of_int ?m * ?p - ?y) = sgn q * of_int ?m * ?p - sgn q * ?y"
    by (simp only: right_diff_distrib mult.assoc)
  also have "\<dots> = binary64 q - q" unfolding b qs ..
  finally have "\<bar>binary64 q - q\<bar> = \<bar>sgn q * (of_int ?m * ?p - ?y)\<bar>" by simp
  also have "\<dots> = \<bar>of_int ?m * ?p - ?y\<bar>"
    using False by (simp add: abs_mult abs_sgn_eq)
  also have "\<dots> = \<bar>(of_int ?m - ?y / ?p) * ?p\<bar>"
    using p by (simp add: algebra_simps)
  also have "\<dots> = \<bar>of_int ?m - ?y / ?p\<bar> * ?p"
    using p by (simp add: abs_mult)
  also have "\<dots> \<le> (1 / 2) * ?p"
    using roundEven_error [of "?y / ?p"] p by (intro mult_right_mono) simp_all
  also have "\<dots> = 2 powi ?E / 2 ^ 53" by (simp add: pe)
  also have "\<dots> \<le> ?y / 2 ^ 53"
    using exponentOf_bounds(1) [OF y] by (simp add: divide_right_mono)
  finally show ?thesis .
qed

lemma binary64_of_int:
  assumes "\<bar>k\<bar> < 2 ^ 53"
  shows "binary64 (of_int k) = of_int k"
proof (cases "k = 0")
  case True
  then show ?thesis by (simp add: binary64_def)
next
  case False
  let ?y = "\<bar>of_int k :: rat\<bar>"
  let ?E = "exponentOf ?y"
  from False have y: "0 < ?y" by simp
  have yk: "?y = of_int \<bar>k\<bar>" by simp
  have "?y < 2 ^ 53"
  proof -
    have "(of_int \<bar>k\<bar> :: rat) < of_int (2 ^ 53)" using assms by (simp only: of_int_less_iff)
    then show ?thesis by (simp only: yk) simp
  qed
  with exponentOf_bounds(1) [OF y] have lt: "(2::rat) powi ?E < 2 powi 53" by simp
  have E: "?E \<le> 52"
  proof (rule ccontr)
    assume "\<not> ?E \<le> 52"
    then have "53 \<le> ?E" by simp
    then have "(2::rat) powi 53 \<le> 2 powi ?E" by (intro power_int_increasing) simp_all
    with lt show False by simp
  qed
  define n where "n = nat (52 - ?E)"
  have e: "?E - 52 = - int n" using E by (simp add: n_def)
  have p: "(2::rat) powi (?E - 52) = 1 / 2 ^ n"
    unfolding e by (simp add: power_int_minus field_simps)
  have "?y / 2 powi (?E - 52) = of_int (\<bar>k\<bar> * 2 ^ n)"
    by (simp add: p)
  then have m: "roundEven (?y / 2 powi (?E - 52)) = \<bar>k\<bar> * 2 ^ n"
    by (simp only: roundEven_of_int)
  have "binary64 (of_int k) =
          sgn (of_int k) * of_int (roundEven (?y / 2 powi (?E - 52))) * 2 powi (?E - 52)"
    using False by (simp add: binary64_def Let_def)
  also have "\<dots> = sgn (of_int k) * of_int (\<bar>k\<bar> * 2 ^ n) * 2 powi (?E - 52)"
    by (simp only: m)
  also have "\<dots> = sgn (of_int k) * of_int (\<bar>k\<bar> * 2 ^ n) * (1 / 2 ^ n)"
    by (simp only: p)
  also have "\<dots> = sgn (of_int k) * of_int \<bar>k\<bar>" by simp
  also have "\<dots> = of_int k" by (simp add: sgn_mult_abs del: of_int_abs flip: yk)
  finally show ?thesis .
qed

lemma binary64_pos:
  assumes "0 < q"
  shows "0 < binary64 q"
proof -
  from assms have "q / 2 ^ 53 < q" by simp
  moreover from binary64_error [of q] assms have "\<bar>binary64 q - q\<bar> \<le> q / 2 ^ 53"
    by (simp only: abs_of_pos)
  ultimately show ?thesis by linarith
qed

lemma binary64_neg:
  assumes "q < 0"
  shows "binary64 q < 0"
proof -
  from assms have "(- q) / 2 ^ 53 < - q" by simp
  moreover from binary64_error [of q] assms have "\<bar>binary64 q - q\<bar> \<le> (- q) / 2 ^ 53"
    by (simp only: abs_of_neg)
  ultimately show ?thesis by linarith
qed

lemma binary64_zero [simp]: "binary64 0 = 0"
  by (simp add: binary64_def)

lemma binary64_abs_le: "\<bar>binary64 q\<bar> \<le> \<bar>q\<bar> * (1 + 1 / 2 ^ 53)"
proof -
  have "\<bar>binary64 q\<bar> \<le> \<bar>binary64 q - q\<bar> + \<bar>q\<bar>" by simp
  also have "\<dots> \<le> \<bar>q\<bar> / 2 ^ 53 + \<bar>q\<bar>" using binary64_error [of q] by simp
  finally show ?thesis by (simp add: algebra_simps)
qed

section \<open>The KPI aggregator\<close>

lemma foldl_solve_exact:
  assumes "\<bar>a\<bar> + (\<Sum>t\<leftarrow>cs. \<bar>resolutionTime t\<bar>) < 2 ^ 53"
  shows "foldl (\<lambda>acc t.
              let created = getTime (t_createdAt t);
                  updated = getTime (t_updatedAt t)
              in jsAdd acc (jsSub updated created)) (of_int a) cs =
         of_int (a + (\<Sum>t\<leftarrow>cs. resolutionTime t))"
  using assms
proof (induction cs arbitrary: a)
  case Nil
  then show ?case by simp
next
  case (Cons c cs)
  let ?d = "resolutionTime c"
  from Cons.prems have d: "\<bar>?d\<bar> < 2 ^ 53" and ad: "\<bar>a + ?d\<bar> < 2 ^ 53"
    and rest: "\<bar>a + ?d\<bar> + (\<Sum>t\<leftarrow>cs. \<bar>resolutionTime t\<bar>) < 2 ^ 53"
    using sum_list_abs [of "map (\<lambda>t. \<bar>resolutionTime t\<bar>) cs"]
    by (simp_all add: o_def) 
  have s: "jsSub (getTime (t_updatedAt c)) (getTime (t_createdAt c)) = of_int ?d"
    using binary64_of_int [OF d] by (simp add: jsSub_def getTime_def resolutionTime_def)
  have "jsAdd (of_int a) (of_int ?d) = of_int (a + ?d)"
    using binary64_of_int [OF ad] by (simp add: jsAdd_def)
  with s Cons.IH [OF rest] show ?case by (simp add: Let_def add.assoc)
qed

lemma totalSolveTime_exact:
  assumes "(\<Sum>t\<leftarrow>cs. \<bar>resolutionTime t\<bar>) < 2 ^ 53"
  shows "totalSolveTime cs = of_int (\<Sum>t\<leftarrow>cs. resolutionTime t)"
  using foldl_solve_exact [of 0 cs] assms by (simp add: totalSolveTime_def)

lemma two_divisions_error:
  assumes "0 < D"
  shows "\<bar>binary64 (binary64 q / D) - q / D\<bar> \<le> \<bar>q / D\<bar> / 10 ^ 15"
proof -
  let ?a = "binary64 q"
  let ?x = "binary64 (?a / D)"
  have 1: "\<bar>?a - q\<bar> \<le> \<bar>q\<bar> / 2 ^ 53" by (rule binary64_error)
  have 2: "\<bar>?x - ?a / D\<bar> \<le> \<bar>?a / D\<bar> / 2 ^ 53" by (rule binary64_error)
  have 3: "\<bar>?a\<bar> \<le> \<bar>q\<bar> * (1 + 1 / 2 ^ 53)" by (rule binary64_abs_le)
  from assms have aD: "\<bar>?a / D\<bar> = \<bar>?a\<bar> / D" and qD: "\<bar>q / D\<bar> = \<bar>q\<bar> / D"
    by simp_all
  have 4: "\<bar>?a / D - q / D\<bar> \<le> \<bar>q\<bar> / D / 2 ^ 53"
  proof -
    have "\<bar>?a / D - q / D\<bar> = \<bar>?a - q\<bar> / D"
      using assms by (simp add: diff_divide_distrib [symmetric])
    also have "\<dots> \<le> (\<bar>q\<bar> / 2 ^ 53) / D"
      using 1 assms by (intro divide_right_mono) simp_all
    finally show ?thesis by (simp add: field_simps)
  qed
  have 5: "\<bar>?a / D\<bar> / 2 ^ 53 \<le> \<bar>q\<bar> / D * (1 + 1 / 2 ^ 53) / 2 ^ 53"
  proof -
    have "\<bar>?a\<bar> / D \<le> \<bar>q\<bar> * (1 + 1 / 2 ^ 53) / D"
      using 3 assms by (intro divide_right_mono) simp_all
    then show ?thesis unfolding aD by (simp add: field_simps)
  qed
  have "\<bar>?x - q / D\<bar> \<le> \<bar>?x - ?a / D\<bar> + \<bar>?a / D - q / D\<bar>" by simp
  also have "\<dots> \<le> \<bar>q\<bar> / D * (1 + 1 / 2 ^ 53) / 2 ^ 53 + \<bar>q\<bar> / D / 2 ^ 53"
    using 2 4 5 by linarith
  also have "\<dots> = \<bar>q\<bar> / D * ((1 + 1 / 2 ^ 53) / 2 ^ 53 + 1 / 2 ^ 53)"
    by (simp add: algebra_simps)
  also have "\<dots> \<le> \<bar>q\<bar> / D * (1 / 10 ^ 15)"
    using assms by (intro mult_left_mono) simp_all
  finally show ?thesis unfolding qD by simp
qed

lemma binary64_sign: "(binary64 q < 0) = (q < 0)"
  using binary64_pos [of q] binary64_neg [of q] by (cases q "0::rat" rule: linorder_cases) auto

lemma digit_0: "digit 0 = CHR ''0''"
  by code_simp

lemma showNat_nonempty: "showNat n \<noteq> []"
  by (subst showNat.simps) simp

lemma toFixed1_digits:
  assumes "\<bar>x\<bar> < 10 ^ 21" and "n = nat \<lfloor>\<bar>x\<bar> * 10 + 1 / 2\<rfloor>"
  shows "toFixed1 x =
           Some ((if x < 0 then ''-'' else []) @ showNat (n div 10) @ ''.'' @
                 [digit (n mod 10)])"
proof (cases "n < 10")
  case True
  then have m: "showNat n = [digit n]" "showNat 0 = ''0''"
    by (simp_all add: showNat.simps [of n] showNat.simps [of 0] digit_0)
  show ?thesis
    using assms(1) True by (simp add: toFixed1_def Let_def assms(2) [symmetric] m)
next
  case False
  then have m: "showNat n = showNat (n div 10) @ [digit (n mod 10)]"
    by (subst showNat.simps) simp
  have l: "1 \<le> length (showNat (n div 10))"
    using showNat_nonempty [of "n div 10"] by (cases "showNat (n div 10)") simp_all
  show ?thesis
    using assms(1) False l
    by (simp add: toFixed1_def Let_def assms(2) [symmetric] m showNat_nonempty)
qed

lemma nearest_tenth:
  fixes y :: rat
  assumes "0 \<le> y" and "n = nat \<lfloor>y * 10 + 1 / 2\<rfloor>"
  shows "\<bar>of_nat n / 10 - y\<bar> \<le> 1 / 20"
proof -
  let ?f = "\<lfloor>y * 10 + 1 / 2\<rfloor>"
  from assms(1) have "0 \<le> ?f" by simp
  with assms(2) have n: "(of_nat n :: rat) = of_int ?f" by simp
  have "of_int ?f \<le> y * 10 + 1 / 2" "y * 10 + 1 / 2 < of_int ?f + 1" by linarith+
  then have "of_int ?f / 10 - y \<le> 1 / 20" "y - of_int ?f / 10 \<le> 1 / 20" by linarith+
  then have "\<bar>of_int ?f / 10 - y\<bar> \<le> 1 / 20" by (intro abs_leI) linarith+
  then show ?thesis by (simp only: n)
qed

lemma average_days:
  assumes "cs \<noteq> []" and "(\<Sum>t\<leftarrow>cs. \<bar>resolutionTime t\<bar>) < 2 ^ 53"
  defines "x \<equiv> jsDiv (jsDiv (totalSolveTime cs) (of_nat (length cs))) (1000 * 60 * 60 * 24)"
  shows "\<bar>x - meanDays cs\<bar> \<le> \<bar>meanDays cs\<bar> / 10 ^ 15"
    and "\<bar>x\<bar> < 10 ^ 21"
    and "(x < 0) = (meanDays cs < 0)"
proof -
  let ?T = "\<Sum>t\<leftarrow>cs. resolutionTime t"
  let ?q = "of_int ?T / of_nat (length cs) :: rat"
  let ?D = "86400000 :: rat"
  from assms(1) have n: "1 \<le> length cs" by (cases cs) simp_all
  have x: "x = binary64 (binary64 ?q / ?D)"
    by (simp add: x_def jsDiv_def totalSolveTime_exact [OF assms(2)])
  have mu: "meanDays cs = ?q / ?D"
    by (simp add: meanDays_def)
  show e: "\<bar>x - meanDays cs\<bar> \<le> \<bar>meanDays cs\<bar> / 10 ^ 15"
    unfolding x mu by (rule two_divisions_error) simp
  have "\<bar>?T\<bar> \<le> (\<Sum>t\<leftarrow>cs. \<bar>resolutionTime t\<bar>)"
    using sum_list_abs [of "map resolutionTime cs"] by (simp add: o_def)
  with assms(2) have "\<bar>?T\<bar> < 2 ^ 53" by simp
  then have "(of_int \<bar>?T\<bar> :: rat) < of_int (2 ^ 53)" by (simp only: of_int_less_iff)
  then have T: "\<bar>of_int ?T :: rat\<bar> < 2 ^ 53" by simp
  have "\<bar>?q\<bar> = \<bar>of_int ?T\<bar> / of_nat (length cs)" by simp
  also have "\<dots> \<le> \<bar>of_int ?T\<bar> / 1"
    using n assms(1) by (intro divide_left_mono) simp_all
  finally have q: "\<bar>?q\<bar> < 2 ^ 53" using T by simp
  have "\<bar>meanDays cs\<bar> = \<bar>?q\<bar> / ?D" unfolding mu by simp
  with q have m: "\<bar>meanDays cs\<bar> < 10 ^ 9" by simp
  have "\<bar>x\<bar> \<le> \<bar>x - meanDays cs\<bar> + \<bar>meanDays cs\<bar>" by simp
  with e m show "\<bar>x\<bar> < 10 ^ 21" by simp
  have "(x < 0) = (binary64 ?q / ?D < 0)" unfolding x by (rule binary64_sign)
  also have "\<dots> = (binary64 ?q < 0)" by (simp add: divide_less_0_iff)
  also have "\<dots> = (?q < 0)" by (rule binary64_sign)
  also have "\<dots> = (meanDays cs < 0)" unfolding mu by (simp add: divide_less_0_iff)
  finally show "(x < 0) = (meanDays cs < 0)" .
qed

text \<open>
  Claim C6. For every list of tickets whose resolved tickets have resolution times that add
  up to less than 2 to the power 53 milliseconds (so every sum the code forms is exact),
  \<^verbatim>\<open>calculateKPIs\<close> publishes: the number of tickets In Progress or Escalated; the number
  of tickets Completed or Closed; and as average the text \<^verbatim>\<open>N/A\<close> when no ticket is
  Completed or Closed, and otherwise the mean resolution time in days printed with one
  decimal place and followed by \<^verbatim>\<open>days\<close>: the printed tenths \<open>n\<close> differ from the
  exact mean by at most half a tenth, up to the rounding of the two double divisions (one
  part in 10 to the power 15). On the empty list the result is 0, 0 and \<^verbatim>\<open>N/A\<close>.
\<close>

theorem calculateKPIs_correct:
  assumes "solved = filter (\<lambda>t. t_status t = COMPLETED \<or> t_status t = CLOSED) ts"
    and "(\<Sum>t\<leftarrow>solved. \<bar>resolutionTime t\<bar>) < 2 ^ 53"
  shows "\<exists>k. calculateKPIs ts s = Some (s \<lparr> kpis := k \<rparr>) \<and>
           k_activeTickets k =
             length (filter (\<lambda>t. t_status t = IN_PROGRESS \<or> t_status t = ESCALATED) ts) \<and>
           k_closedTickets k = length solved \<and>
           (if solved = [] then k_avgTimeToSolve k = ''N/A''
            else \<exists>n. k_avgTimeToSolve k =
                        (if meanDays solved < 0 then ''-'' else []) @
                        showNat (n div 10) @ ''.'' @ [digit (n mod 10)] @ '' days'' \<and>
                      \<bar>of_nat n / 10 - \<bar>meanDays solved\<bar>\<bar> \<le>
                        1 / 20 + \<bar>meanDays solved\<bar> / 10 ^ 15) \<and>
         calculateKPIs [] s =
           Some (s \<lparr> kpis := \<lparr> k_activeTickets = 0, k_closedTickets = 0,
                                k_avgTimeToSolve = ''N/A'' \<rparr> \<rparr>)"
proof (cases "solved = []")
  case True
  with assms(1) have "filter (\<lambda>t. t_status t = COMPLETED \<or> t_status t = CLOSED) ts = []"
    by simp
  then have "calculateKPIs ts s =
      Some (s \<lparr> kpis := \<lparr> k_activeTickets =
                 length (filter (\<lambda>t. t_status t = IN_PROGRESS \<or> t_status t = ESCALATED) ts),
               k_closedTickets = 0, k_avgTimeToSolve = ''N/A'' \<rparr> \<rparr>)"
    by (simp add: calculateKPIs_def)
  moreover have "calculateKPIs [] s =
           Some (s \<lparr> kpis := \<lparr> k_activeTickets = 0, k_closedTickets = 0,
                                k_avgTimeToSolve = ''N/A'' \<rparr> \<rparr>)"
    by (simp add: calculateKPIs_def)
  ultimately show ?thesis using True
    by (intro conjI exI [of _ "\<lparr> k_activeTickets =
                 length (filter (\<lambda>t. t_status t = IN_PROGRESS \<or> t_status t = ESCALATED) ts),
               k_closedTickets = 0, k_avgTimeToSolve = ''N/A'' \<rparr>"]) simp_all
next
  case False
  define x where
    "x = jsDiv (jsDiv (totalSolveTime solved) (of_nat (length solved))) (1000 * 60 * 60 * 24)"
  define n where "n = nat \<lfloor>\<bar>x\<bar> * 10 + 1 / 2\<rfloor>"
  note A = average_days [OF False assms(2), folded x_def]
  have f: "toFixed1 x =
             Some ((if meanDays solved < 0 then ''-'' else []) @ showNat (n div 10) @ ''.'' @
                   [digit (n mod 10)])"
    using toFixed1_digits [OF A(2) n_def] A(3) by simp
  have "\<bar>of_nat n / 10 - \<bar>meanDays solved\<bar>\<bar> \<le>
          \<bar>of_nat n / 10 - \<bar>x\<bar>\<bar> + \<bar>\<bar>x\<bar> - \<bar>meanDays solved\<bar>\<bar>"
    by simp
  also have "\<dots> \<le> 1 / 20 + \<bar>x - meanDays solved\<bar>"
    using nearest_tenth [of "\<bar>x\<bar>" n] n_def by (intro add_mono abs_triangle_ineq3) simp_all
  also have "\<dots> \<le> 1 / 20 + \<bar>meanDays solved\<bar> / 10 ^ 15"
    using A(1) by simp
  finally have b: "\<bar>of_nat n / 10 - \<bar>meanDays solved\<bar>\<bar> \<le>
                     1 / 20 + \<bar>meanDays solved\<bar> / 10 ^ 15" .
  from False have l: "0 < length solved" by simp
  have c: "calculateKPIs ts s =
             Some (s \<lparr> kpis := \<lparr> k_activeTickets =
                 length (filter (\<lambda>t. t_status t = IN_PROGRESS \<or> t_status t = ESCALATED) ts),
               k_closedTickets = length solved,
               k_avgTimeToSolve =
                 ((if meanDays solved < 0 then ''-'' else []) @ showNat (n div 10) @ ''.'' @
                  [digit (n mod 10)]) @ '' days'' \<rparr> \<rparr>)"
    using l f unfolding calculateKPIs_def Let_def assms(1) [symmetric] x_def [symmetric]
    by simp
  have e: "calculateKPIs [] s =
           Some (s \<lparr> kpis := \<lparr> k_activeTickets = 0, k_closedTickets = 0,
                                k_avgTimeToSolve = ''N/A'' \<rparr> \<rparr>)"
    by (simp add: calculateKPIs_def)
  have d: "\<exists>m. ((if meanDays solved < 0 then ''-'' else []) @ showNat (n div 10) @ ''.'' @
                  [digit (n mod 10)]) @ '' days'' =
                (if meanDays solved < 0 then ''-'' else []) @
                        showNat (m div 10) @ ''.'' @ [digit (m mod 10)] @ '' days'' \<and>
             \<bar>of_nat m / 10 - \<bar>meanDays solved\<bar>\<bar> \<le>
                        1 / 20 + \<bar>meanDays solved\<bar> / 10 ^ 15"
    using b by (intro exI [of _ n]) simp
  show ?thesis
    using c False d e
    by (intro conjI exI [of _ "\<lparr> k_activeTickets =
                 length (filter (\<lambda>t. t_status t = IN_PROGRESS \<or> t_status t = ESCALATED) ts),
               k_closedTickets = length solved,
               k_avgTimeToSolve =
                 ((if meanDays solved < 0 then ''-'' else []) @ showNat (n div 10) @ ''.'' @
                  [digit (n mod 10)]) @ '' days'' \<rparr>"]) simp_all
qed

theorem calculateKPIs_correct_witness:
  "\<exists>k avg. calculateKPIs exTickets exState = Some (exState \<lparr> kpis := k \<rparr>) \<and>
     k_activeTickets k = 1 \<and> k_closedTickets k = 2 \<and> k_avgTimeToSolve k = avg @ '' days''"
proof -
  let ?solved = "[solvedTicket 1700000000000 1700276480000,
                  solvedTicket 1690000000000 1690276480000]"
  have a: "?solved = filter (\<lambda>t. t_status t = COMPLETED \<or> t_status t = CLOSED) exTickets"
    by (simp add: exTickets_def solvedTicket_def exTicket_def)
  have b: "(\<Sum>t\<leftarrow>?solved. \<bar>resolutionTime t\<bar>) < 2 ^ 53"
    by (simp add: resolutionTime_def solvedTicket_def)
  have c: "length (filter (\<lambda>t. t_status t = IN_PROGRESS \<or> t_status t = ESCALATED) exTickets)
             = 1"
    by (simp add: exTickets_def solvedTicket_def exTicket_def)
  from calculateKPIs_correct [OF a b, of exState] c show ?thesis
    by auto
qed

text \<open>A mean of exactly 0.35 days: the double nearest to 0.35 is below it, and the
  code prints \<^verbatim>\<open>0.3 days\<close>.\<close>

lemma binary64_seven_twentieths:
  "binary64 (7 / 20) = 3152519739159347 / 9007199254740992"
  by code_simp

lemma toFixed1_seven_twentieths:
  "toFixed1 (3152519739159347 / 9007199254740992) = Some ''0.3''"
  by code_simp

lemma calculateKPIs_rounding_example:
  "calculateKPIs [solvedTicket 1700000000000 1700030240000] exState =
     Some (exState \<lparr> kpis := \<lparr> k_activeTickets = 0, k_closedTickets = 1,
                                 k_avgTimeToSolve = ''0.3 days'' \<rparr> \<rparr>)"
proof -
  have t: "totalSolveTime [solvedTicket 1700000000000 1700030240000] = 30240000"
    by (subst totalSolveTime_exact) (simp_all add: resolutionTime_def solvedTicket_def)
  have d: "jsDiv (jsDiv 30240000 1) 86400000 =
             3152519739159347 / 9007199254740992"
    using binary64_of_int [of 30240000]
    by (simp add: jsDiv_def binary64_seven_twentieths)
  show ?thesis
    by (simp add: calculateKPIs_def Let_def solvedTicket_def t [unfolded solvedTicket_def] d
                  toFixed1_seven_twentieths)
qed

section \<open>The two scenarios of the specification\<close>

text \<open>
  A ticket for the same uid and an error type with an automated message, created twice:
  the first is Closed, the second Escalated with the re-submission text for the admins.
  And a ticket completed with a comment twice: the second update adds no notification.
\<close>

lemma addTicket_keeps:
  assumes "addTicket clk d s = Inr s'"
  shows "sessionUser s' = sessionUser s \<and> sessionTeam s' = sessionTeam s \<and>
         mockMessages s' = mockMessages s"
  using assms
  by (auto simp: addTicket_def Let_def addLog_def split: option.splits if_splits)

lemma addTicket_defined:
  assumes "sessionUser s = Some user" "u_id user \<noteq> []" "resolvedTeam user s = Some team"
    "team \<noteq> []"
  shows "\<exists>s'. addTicket clk d s = Inr s'"
  using assms by (simp add: addTicket_def Let_def)

lemma resolvedTeam_cong:
  "sessionTeam s' = sessionTeam s \<Longrightarrow> resolvedTeam user s' = resolvedTeam user s"
  by (simp add: resolvedTeam_def)

lemma resubmission_scenario:
  "\<exists>s1 s2 t1 t2 an.
     addTicket exClock exDraft exState = Inr s1 \<and> mockTickets s1 = [t1] \<and>
     t_status t1 = CLOSED \<and>
     addTicket (\<lambda>k. exClock (10 + k)) exDraft s1 = Inr s2 \<and> mockTickets s2 = [t2, t1] \<and>
     t_status t2 = ESCALATED \<and>
     mockAdminNotifications s2 = an # mockAdminNotifications s1 \<and>
     an_message an = ''Ticket for UID UID500 was re-submitted and has been escalated.''"
proof -
  from exState_addTicket obtain s1 where 1: "addTicket exClock exDraft exState = Inr s1" ..
  have u: "sessionUser exState = Some exUser" by (simp add: exState_def)
  have tm: "resolvedTeam exUser exState = Some ''Onboarding Team''"
    by (simp add: resolvedTeam_def exUser_def exState_def)
  from addTicket_tickets [OF 1 u] obtain t1 where
    t1: "mockTickets s1 = [t1]" "tickets s1 = [t1]" "t_status t1 = CLOSED"
        "t_uid t1 = ''UID500''" "t_errorTypeId t1 = ''et-4''"
    by (auto simp: initialStatus_def exState_def exMessages_def exDraft_def)
  from addTicket_keeps [OF 1] have k: "sessionUser s1 = Some exUser"
    "sessionTeam s1 = sessionTeam exState" "mockMessages s1 = exMessages"
    by (simp_all add: exState_def)
  have "resolvedTeam exUser s1 = Some ''Onboarding Team''"
    using resolvedTeam_cong [OF k(2)] tm by simp
  from addTicket_defined [OF k(1) _ this] obtain s2 where
    2: "addTicket (\<lambda>k. exClock (10 + k)) exDraft s1 = Inr s2"
    by (auto simp: exUser_def)
  have st: "initialStatus exDraft s1 = ESCALATED"
    by (simp add: initialStatus_def k(3) t1 exMessages_def exDraft_def)
  from addTicket_tickets [OF 2 k(1)] obtain t2 where
    t2: "mockTickets s2 = [t2, t1]" "t_status t2 = ESCALATED"
    by (auto simp: st t1)
  have uid: "d_uid exDraft = ''UID500''" by (simp add: exDraft_def)
  from addTicket_admin [OF 2] obtain an where
    an: "mockAdminNotifications s2 = an # mockAdminNotifications s1"
        "an_message an = resubmittedAdminMessage ''UID500''"
    by (auto simp: st uid)
  from 1 2 t1 t2 an show ?thesis
    by (auto simp: resubmittedAdminMessage_def)
qed

lemma repeated_completion_scenario:
  "mockNotifications
     (updateTicket (\<lambda>k. exClock (10 + k)) completePatch
        (updateTicket exClock completePatch exTicketState)) =
   mockNotifications (updateTicket exClock completePatch exTicketState) \<and>
   length (mockNotifications (updateTicket exClock completePatch exTicketState)) = 1"
  by (simp add: updateTicket_def actingUserId_def exTicketState_def exState_def exUser_def
                exTicket_def completePatch_def updateFound_def applyPatch_def addLog_def
                Let_def)

end
